theory Spec2Isabelle
  imports Main "HOL-Library.Word"
begin

section \<open>The unqlite storage backend of Akonadi2 (common/storage\_unqlite.cpp)\<close>

text \<open>
  The file wraps one handle of the embedded key-value engine unqlite in the class
  \<open>Storage\<close>. The engine is a C library outside the file: it is a parameter of
  every function below (a record of its entry points, each taking and returning the
  engine's state), so the theorems hold for every engine, whatever its result codes.
  What the code does that a caller can observe (engine calls with their result codes,
  handler invocations, diagnostics, \<open>free\<close>) is appended to a trace.
\<close>

subsection \<open>Data\<close>

type_synonym bytes = string

datatype AccessMode = ReadOnly | ReadWrite

datatype open_flag =
  UNQLITE_OPEN_CREATE | UNQLITE_OPEN_READONLY | UNQLITE_OPEN_MMAP | UNQLITE_OPEN_READWRITE

text \<open>\<open>Storage::Error(store, code, message)\<close>.\<close>

record Error =
  store :: string
  code :: int
  message :: string

text \<open>The result code \<open>UNQLITE_OK\<close> of unqlite.h; \<open>Storage::write\<close> returns \<open>!rc\<close>,
  which agrees with \<open>rc == UNQLITE_OK\<close> because the constant is 0.\<close>

definition UNQLITE_OK :: int where
  "UNQLITE_OK = 0"

datatype engine_call =
  Open | Close | ConfigErrLog | Begin | Commit | Rollback | KvStore | KvDelete
  | CursorInit | CursorRelease | CursorFirstEntry | CursorValidEntry | CursorNextEntry
  | CursorSeek | CursorKey | CursorData

datatype buffer_name = KeyBuffer | DataBuffer

text \<open>A pointer handed to a handler: \<open>None\<close> is \<open>nullptr\<close>, \<open>Some bs\<close> the block it
  points to.\<close>

type_synonym ptr = "bytes option"

datatype event =
  Engine engine_call int
  | ResultCall ptr int ptr int
  | ErrorCall Error
  | Cerr string
  | Cout string
  | Free buffer_name ptr

text \<open>The entry points of the engine that the file calls. \<open>'e\<close> is the state of the
  engine (its files, open handles and cursors), \<open>'p\<close> a database handle
  (\<open>unqlite *\<close>), \<open>'q\<close> a cursor (\<open>unqlite_kv_cursor *\<close>). The error-log query
  returns the result code, the message and its length. The seek is the one with
  \<open>UNQLITE_CURSOR_MATCH_EXACT\<close>. The key and data readers take whether a destination
  buffer is supplied and the length passed in, and return the result code, the bytes
  copied and the length passed out.\<close>

record ('e, 'p, 'q) unqlite =
  unqlite_open :: "string \<Rightarrow> open_flag set \<Rightarrow> 'e \<Rightarrow> (int \<times> 'p option) \<times> 'e"
  unqlite_close :: "'p option \<Rightarrow> 'e \<Rightarrow> int \<times> 'e"
  unqlite_config_err_log :: "'p \<Rightarrow> 'e \<Rightarrow> (int \<times> string \<times> int) \<times> 'e"
  unqlite_begin :: "'p \<Rightarrow> 'e \<Rightarrow> int \<times> 'e"
  unqlite_commit :: "'p \<Rightarrow> 'e \<Rightarrow> int \<times> 'e"
  unqlite_rollback :: "'p \<Rightarrow> 'e \<Rightarrow> int \<times> 'e"
  unqlite_kv_store :: "'p \<Rightarrow> bytes \<Rightarrow> bytes \<Rightarrow> 'e \<Rightarrow> int \<times> 'e"
  unqlite_kv_delete :: "'p \<Rightarrow> bytes \<Rightarrow> 'e \<Rightarrow> int \<times> 'e"
  unqlite_kv_cursor_init :: "'p \<Rightarrow> 'e \<Rightarrow> (int \<times> 'q) \<times> 'e"
  unqlite_kv_cursor_release :: "'p \<Rightarrow> 'q \<Rightarrow> 'e \<Rightarrow> int \<times> 'e"
  unqlite_kv_cursor_first_entry :: "'q \<Rightarrow> 'e \<Rightarrow> int \<times> 'e"
  unqlite_kv_cursor_valid_entry :: "'q \<Rightarrow> 'e \<Rightarrow> int \<times> 'e"
  unqlite_kv_cursor_next_entry :: "'q \<Rightarrow> 'e \<Rightarrow> int \<times> 'e"
  unqlite_kv_cursor_seek :: "'q \<Rightarrow> bytes \<Rightarrow> 'e \<Rightarrow> int \<times> 'e"
  unqlite_kv_cursor_key :: "'q \<Rightarrow> bool \<Rightarrow> int \<Rightarrow> 'e \<Rightarrow> (int \<times> bytes \<times> int) \<times> 'e"
  unqlite_kv_cursor_data :: "'q \<Rightarrow> bool \<Rightarrow> int \<Rightarrow> 'e \<Rightarrow> (int \<times> bytes \<times> int) \<times> 'e"

text \<open>\<open>Storage::Private\<close>: \<open>db\<close> is \<open>None\<close> for the null handle.\<close>

record 'p Private =
  storageRoot :: string
  name :: string
  mode :: AccessMode
  db :: "'p option"
  allowDuplicates :: bool
  inTransaction :: bool

text \<open>Everything outside the \<open>Storage\<close> object: the engine, the state captured by the
  caller's handlers, and the trace. A \<open>world\<close> adds the object itself (\<open>d\<close>).\<close>

record ('e, 'h) env =
  engine :: 'e
  user :: 'h
  trace :: "event list"

record ('e, 'h, 'p) world = "('e, 'h) env" +
  d :: "'p Private"

text \<open>The handlers are the caller's code. They are functions on the caller's state
  \<open>'h\<close>: a handler reads and changes what it has captured, and does not call back into
  the store. The result handler takes the key pointer and size and the value pointer and
  size, and returns a \<open>bool\<close>.\<close>

type_synonym 'h resultHandler = "ptr \<Rightarrow> int \<Rightarrow> ptr \<Rightarrow> int \<Rightarrow> 'h \<Rightarrow> bool \<times> 'h"
type_synonym 'h errorHandler = "Error \<Rightarrow> 'h \<Rightarrow> 'h"

definition emit :: "event \<Rightarrow> ('e, 'h, 'z) env_scheme \<Rightarrow> ('e, 'h, 'z) env_scheme" where
  "emit ev w = w\<lparr>trace := trace w @ [ev]\<rparr>"

text \<open>One call of an engine entry point with a plain result code: the engine's state is
  replaced and the call is traced.\<close>

definition engine_rc ::
  "engine_call \<Rightarrow> ('e \<Rightarrow> int \<times> 'e) \<Rightarrow> ('e, 'h, 'z) env_scheme \<Rightarrow> int \<times> ('e, 'h, 'z) env_scheme" where
  "engine_rc c f w =
     (let (rc, e') = f (engine w) in (rc, emit (Engine c rc) (w\<lparr>engine := e'\<rparr>)))"

definition call_error :: "'h errorHandler \<Rightarrow> Error \<Rightarrow> ('e, 'h, 'z) env_scheme \<Rightarrow> ('e, 'h, 'z) env_scheme" where
  "call_error errorHandler error w = emit (ErrorCall error) (w\<lparr>user := errorHandler error (user w)\<rparr>)"

definition s_unqliteDir :: string where
  "s_unqliteDir = ''/unqlite/''"

definition endl :: string where
  "endl = [CHR 0x0A]"

subsection \<open>Error reporting\<close>

text \<open>\<open>unqlite_config(db, UNQLITE_CONFIG_ERR_LOG, &errorMessage, &length)\<close>; its result
  code is not looked at.\<close>

definition err_log ::
  "('e, 'p, 'q) unqlite \<Rightarrow> 'p \<Rightarrow> ('e, 'h, 'z) env_scheme \<Rightarrow> (string \<times> int) \<times> ('e, 'h, 'z) env_scheme" where
  "err_log ops p w =
     (let ((rc, errorMessage, len), e') = unqlite_config_err_log ops p (engine w)
      in ((errorMessage, len), emit (Engine ConfigErrLog rc) (w\<lparr>engine := e'\<rparr>)))"

text \<open>\<open>Private::reportDbError(functionName)\<close> writes to \<open>std::cerr\<close>: first the name of
  the function, then, with a handle, the engine's error log if it is not empty (queried
  after the name is written), then the end of the line.\<close>

definition reportDbError ::
  "('e, 'p, 'q) unqlite \<Rightarrow> string \<Rightarrow> ('e, 'h, 'p) world \<Rightarrow> ('e, 'h, 'p) world" where
  "reportDbError ops functionName w =
     (let w0 = emit (Cerr (''ERROR: '' @ functionName)) w;
          w2 = (case db (d w0) of
                  None \<Rightarrow> w0
                | Some p \<Rightarrow>
                    (let ((errorMessage, len), w1) = err_log ops p w0
                     in if len > 0 then emit (Cerr ('': '' @ errorMessage)) w1 else w1))
      in emit (Cerr endl) w2)"

text \<open>\<open>Private::reportDbError(functionName, errorCode, errorHandler)\<close>.\<close>

definition reportDbError3 ::
  "('e, 'p, 'q) unqlite \<Rightarrow> string \<Rightarrow> int \<Rightarrow> 'h errorHandler \<Rightarrow> ('e, 'h, 'p) world \<Rightarrow> ('e, 'h, 'p) world" where
  "reportDbError3 ops functionName errorCode errorHandler w =
     (case db (d w) of
        None \<Rightarrow>
          call_error errorHandler \<lparr>store = name (d w), code = errorCode, message = functionName\<rparr> w
      | Some p \<Rightarrow>
          (let ((errorMessage, len), w1) = err_log ops p w
           in if len > 0
              then call_error errorHandler
                     \<lparr>store = name (d w), code = errorCode, message = errorMessage\<rparr> w1
              else call_error errorHandler
                     \<lparr>store = name (d w), code = errorCode, message = functionName\<rparr> w1))"

subsection \<open>Construction and destruction\<close>

text \<open>\<open>Storage::Storage\<close> with \<open>Private::Private\<close>. \<open>QDir::mkpath\<close> is not modelled.\<close>

definition Storage ::
  "('e, 'p, 'q) unqlite \<Rightarrow> string \<Rightarrow> string \<Rightarrow> AccessMode \<Rightarrow> bool \<Rightarrow> ('e, 'h) env \<Rightarrow> ('e, 'h, 'p) world" where
  "Storage ops s n m duplicates v =
     (let fullPath = s @ s_unqliteDir @ n;
          openFlags = (if m = ReadOnly
                       then {UNQLITE_OPEN_CREATE} \<union> {UNQLITE_OPEN_READONLY, UNQLITE_OPEN_MMAP}
                       else {UNQLITE_OPEN_CREATE} \<union> {UNQLITE_OPEN_READWRITE});
          ((rc, h), e') = unqlite_open ops fullPath openFlags (engine v);
          w = emit (Engine Open rc)
                (env.extend (v\<lparr>engine := e'\<rparr>)
                   (world.fields \<lparr>storageRoot = s, name = n, mode = m, db = h,
                                  allowDuplicates = duplicates, inTransaction = False\<rparr>))
      in if rc \<noteq> UNQLITE_OK then reportDbError ops ''unqlite_open'' w else w)"

definition isInTransaction :: "('e, 'h, 'p) world \<Rightarrow> bool" where
  "isInTransaction w = inTransaction (d w)"

definition exists_db :: "('e, 'h, 'p) world \<Rightarrow> bool" where
  "exists_db w = (db (d w) \<noteq> None)"

subsection \<open>Transactions\<close>

text \<open>\<open>Storage::startTransaction(type)\<close>; the argument is not used by the code.\<close>

definition startTransaction ::
  "('e, 'p, 'q) unqlite \<Rightarrow> AccessMode \<Rightarrow> ('e, 'h, 'p) world \<Rightarrow> bool \<times> ('e, 'h, 'p) world" where
  "startTransaction ops type w =
     (case db (d w) of
        None \<Rightarrow> (False, w)
      | Some p \<Rightarrow>
          if inTransaction (d w) then (True, w)
          else
            (let (rc, w1) = engine_rc Begin (unqlite_begin ops p) w;
                 w2 = w1\<lparr>d := (d w1)\<lparr>inTransaction := (rc = UNQLITE_OK)\<rparr>\<rparr>;
                 w3 = (if \<not> inTransaction (d w2) then reportDbError ops ''unqlite_begin'' w2 else w2)
             in (inTransaction (d w3), w3)))"

definition commitTransaction ::
  "('e, 'p, 'q) unqlite \<Rightarrow> ('e, 'h, 'p) world \<Rightarrow> bool \<times> ('e, 'h, 'p) world" where
  "commitTransaction ops w =
     (case db (d w) of
        None \<Rightarrow> (False, w)
      | Some p \<Rightarrow>
          if \<not> inTransaction (d w) then (True, w)
          else
            (let (rc, w1) = engine_rc Commit (unqlite_commit ops p) w;
                 w2 = w1\<lparr>d := (d w1)\<lparr>inTransaction := False\<rparr>\<rparr>;
                 w3 = (if rc \<noteq> UNQLITE_OK then reportDbError ops ''unqlite_commit'' w2 else w2)
             in (rc = UNQLITE_OK, w3)))"

text \<open>\<open>Storage::abortTransaction()\<close> returns nothing.\<close>

definition abortTransaction ::
  "('e, 'p, 'q) unqlite \<Rightarrow> ('e, 'h, 'p) world \<Rightarrow> ('e, 'h, 'p) world" where
  "abortTransaction ops w =
     (case db (d w) of
        None \<Rightarrow> w
      | Some p \<Rightarrow>
          if \<not> inTransaction (d w) then w
          else
            (let (rc, w1) = engine_rc Rollback (unqlite_rollback ops p) w
             in w1\<lparr>d := (d w1)\<lparr>inTransaction := False\<rparr>\<rparr>))"

text \<open>\<open>Storage::~Storage\<close> followed by \<open>Private::~Private\<close>: the object is gone afterwards,
  what is left is the environment.\<close>

definition Storage_destroy ::
  "('e, 'p, 'q) unqlite \<Rightarrow> ('e, 'h, 'p) world \<Rightarrow> ('e, 'h) env" where
  "Storage_destroy ops w =
     (let w1 = (if inTransaction (d w) then abortTransaction ops w else w);
          (rc, w2) = engine_rc Close (unqlite_close ops (db (d w1))) w1
      in env.truncate w2)"

subsection \<open>Point operations\<close>

text \<open>\<open>Storage::write(key, keySize, value, valueSize)\<close>: \<open>key\<close> and \<open>value\<close> are the byte
  blocks that the two pointer and size pairs denote.\<close>

definition write_raw ::
  "('e, 'p, 'q) unqlite \<Rightarrow> bytes \<Rightarrow> bytes \<Rightarrow> ('e, 'h, 'p) world \<Rightarrow> bool \<times> ('e, 'h, 'p) world" where
  "write_raw ops key val w =
     (case db (d w) of
        None \<Rightarrow> (False, w)
      | Some p \<Rightarrow>
          (let (rc, w1) = engine_rc KvStore (unqlite_kv_store ops p key val) w;
               w2 = (if rc \<noteq> UNQLITE_OK then reportDbError ops ''unqlite_kv_store'' w1 else w1)
           in (rc = 0, w2)))"

text \<open>The block of \<open>n\<close> bytes that starts at \<open>s.data()\<close>: the characters of \<open>s\<close> are
  followed by one terminating zero byte; reading further is undefined behaviour
  (\<open>None\<close>).\<close>

definition string_block :: "string \<Rightarrow> nat \<Rightarrow> bytes option" where
  "string_block s n =
     (if n \<le> length s then Some (take n s)
      else if n = Suc (length s) then Some (s @ [CHR 0x00])
      else None)"

text \<open>\<open>Storage::write(sKey, sValue)\<close> calls
  \<open>write(sKey.data(), sKey.size(), sValue.data(), sKey.size())\<close>: the length given for
  the value is the size of the key. With a null handle the callee returns before the
  engine reads any byte.\<close>

definition write_string ::
  "('e, 'p, 'q) unqlite \<Rightarrow> string \<Rightarrow> string \<Rightarrow> ('e, 'h, 'p) world \<Rightarrow> (bool \<times> ('e, 'h, 'p) world) option" where
  "write_string ops sKey sValue w =
     (if db (d w) = None then Some (write_raw ops sKey [] w)
      else map_option (\<lambda>val. write_raw ops sKey val w) (string_block sValue (length sKey)))"

text \<open>\<open>Storage::remove(keyData, keySize, errorHandler)\<close>.\<close>

definition remove ::
  "('e, 'p, 'q) unqlite \<Rightarrow> bytes \<Rightarrow> 'h errorHandler \<Rightarrow> ('e, 'h, 'p) world \<Rightarrow> ('e, 'h, 'p) world" where
  "remove ops keyData errorHandler w =
     (case db (d w) of
        None \<Rightarrow> call_error errorHandler \<lparr>store = name (d w), code = - 1, message = ''Not open''\<rparr> w
      | Some p \<Rightarrow> snd (engine_rc KvDelete (unqlite_kv_delete ops p keyData) w))"

subsection \<open>Scanning\<close>

text \<open>The locals \<open>keyBuffer\<close>, \<open>keyBufferLength\<close>, \<open>dataBuffer\<close>, \<open>dataBufferLength\<close> of
  \<open>Storage::scan\<close>, which \<open>fetchCursorData\<close> updates through pointers.\<close>

record buffers =
  keyBuffer :: ptr
  keyBufferLength :: int
  dataBuffer :: ptr
  dataBufferLength :: int

text \<open>\<open>realloc(p, n)\<close>, assumed to succeed: the old content is kept, the new bytes are
  indeterminate in C and zero here.\<close>

definition realloc :: "ptr \<Rightarrow> int \<Rightarrow> ptr" where
  "realloc p n =
     Some (case p of None \<Rightarrow> replicate (nat n) (CHR 0x00)
           | Some old \<Rightarrow> take (nat n) old @ replicate (nat n - length old) (CHR 0x00))"

text \<open>The engine copies \<open>bs\<close> to the start of the block, if there is one.\<close>

definition copy_into :: "ptr \<Rightarrow> bytes \<Rightarrow> ptr" where
  "copy_into p bs = map_option (\<lambda>old. bs @ drop (length bs) old) p"

text \<open>The handler takes \<open>int valueSize\<close>, the code passes an \<open>unqlite_int64\<close>.\<close>

definition int_of_int64 :: "int \<Rightarrow> int" where
  "int_of_int64 x = sint (word_of_int x :: 32 word)"

definition cursor_read ::
  "engine_call \<Rightarrow> ('e \<Rightarrow> (int \<times> bytes \<times> int) \<times> 'e) \<Rightarrow> ('e, 'h, 'z) env_scheme
     \<Rightarrow> (int \<times> bytes \<times> int) \<times> ('e, 'h, 'z) env_scheme" where
  "cursor_read c f w =
     (let ((rc, bs, n), e') = f (engine w) in ((rc, bs, n), emit (Engine c rc) (w\<lparr>engine := e'\<rparr>)))"

definition call_result ::
  "'h resultHandler \<Rightarrow> ptr \<Rightarrow> int \<Rightarrow> ptr \<Rightarrow> int \<Rightarrow> ('e, 'h, 'z) env_scheme
     \<Rightarrow> bool \<times> ('e, 'h, 'z) env_scheme" where
  "call_result resultHandler keyPtr keySize valuePtr valueSize w =
     (let (continue, h') = resultHandler keyPtr keySize valuePtr valueSize (user w)
      in (continue, emit (ResultCall keyPtr keySize valuePtr valueSize) (w\<lparr>user := h'\<rparr>)))"

text \<open>\<open>fetchCursorData\<close> returns \<open>void\<close>: what the handler returns is dropped.\<close>

definition fetchCursorData ::
  "('e, 'p, 'q) unqlite \<Rightarrow> 'q \<Rightarrow> buffers \<Rightarrow> 'h resultHandler \<Rightarrow> ('e, 'h, 'p) world
     \<Rightarrow> buffers \<times> ('e, 'h, 'p) world" where
  "fetchCursorData ops cursor b resultHandler w =
     (let ((rc1, _, keyLength), w1) = cursor_read CursorKey (unqlite_kv_cursor_key ops cursor False 0) w
      in if rc1 \<noteq> UNQLITE_OK then (b, w1)
         else
           (let ((rc2, _, dataLength), w2) =
                  cursor_read CursorData (unqlite_kv_cursor_data ops cursor False 0) w1
            in if rc2 \<noteq> UNQLITE_OK then (b, w2)
               else
                 (let b1 = (if keyLength > keyBufferLength b
                            then b\<lparr>keyBuffer := realloc (keyBuffer b) keyLength,
                                   keyBufferLength := keyLength\<rparr>
                            else b);
                      b2 = (if dataLength > dataBufferLength b1
                            then b1\<lparr>dataBuffer := realloc (dataBuffer b1) dataLength,
                                    dataBufferLength := dataLength\<rparr>
                            else b1);
                      ((rc3, keyBytes, keyLength'), w3) =
                        cursor_read CursorKey
                          (unqlite_kv_cursor_key ops cursor (keyBuffer b2 \<noteq> None) keyLength) w2;
                      b3 = b2\<lparr>keyBuffer := copy_into (keyBuffer b2) keyBytes\<rparr>
                  in if rc3 \<noteq> UNQLITE_OK then (b3, w3)
                     else
                       (let ((rc4, dataBytes, dataLength'), w4) =
                              cursor_read CursorData
                                (unqlite_kv_cursor_data ops cursor (dataBuffer b3 \<noteq> None) dataLength) w3;
                            b4 = b3\<lparr>dataBuffer := copy_into (dataBuffer b3) dataBytes\<rparr>
                        in if rc4 \<noteq> UNQLITE_OK then (b4, w4)
                           else (b4, snd (call_result resultHandler (keyBuffer b4) keyLength'
                                            (dataBuffer b4) (int_of_int64 dataLength') w4))))))"

text \<open>The \<open>for\<close> loop of the full scan, entered after \<open>unqlite_kv_cursor_first_entry\<close>:
  test \<open>unqlite_kv_cursor_valid_entry\<close>, fetch, \<open>unqlite_kv_cursor_next_entry\<close>. Nothing
  in the code bounds it; \<open>None\<close> is the loop that never ends.\<close>

partial_function (option) scan_loop ::
  "('e, 'p, 'q) unqlite \<Rightarrow> 'q \<Rightarrow> 'h resultHandler \<Rightarrow> buffers \<Rightarrow> ('e, 'h, 'p) world
     \<Rightarrow> (buffers \<times> ('e, 'h, 'p) world) option" where
  "scan_loop ops cursor resultHandler b w =
     (let (valid, w1) = engine_rc CursorValidEntry (unqlite_kv_cursor_valid_entry ops cursor) w
      in if valid \<noteq> 0
         then
           (let (b2, w2) = fetchCursorData ops cursor b resultHandler w1;
                (rc, w3) = engine_rc CursorNextEntry (unqlite_kv_cursor_next_entry ops cursor) w2
            in scan_loop ops cursor resultHandler b2 w3)
         else Some (b, w1))"

declare scan_loop.simps [code]

text \<open>\<open>Storage::scan(keyData, keySize, resultHandler, errorHandler)\<close>: \<open>keyData\<close> is
  \<open>None\<close> for a null pointer, and \<open>keySize\<close> is the length of the block.\<close>

definition scan ::
  "('e, 'p, 'q) unqlite \<Rightarrow> ptr \<Rightarrow> 'h resultHandler \<Rightarrow> 'h errorHandler \<Rightarrow> ('e, 'h, 'p) world
     \<Rightarrow> ('e, 'h, 'p) world option" where
  "scan ops keyData resultHandler errorHandler w =
     (case db (d w) of
        None \<Rightarrow>
          Some (call_error errorHandler \<lparr>store = name (d w), code = - 1, message = ''Not open''\<rparr> w)
      | Some p \<Rightarrow>
          (let ((rc, cursor), e1) = unqlite_kv_cursor_init ops p (engine w);
               w1 = emit (Engine CursorInit rc) (w\<lparr>engine := e1\<rparr>)
           in if rc \<noteq> UNQLITE_OK
              then Some (reportDbError3 ops ''unqlite_kv_cursor_init'' rc errorHandler w1)
              else
                (let b0 = \<lparr>keyBuffer = None, keyBufferLength = 0,
                           dataBuffer = None, dataBufferLength = 0\<rparr>;
                     key = (case keyData of None \<Rightarrow> [] | Some k \<Rightarrow> k);
                     r = (if keyData = None \<or> length key = 0
                          then scan_loop ops cursor resultHandler b0
                                 (snd (engine_rc CursorFirstEntry
                                         (unqlite_kv_cursor_first_entry ops cursor) w1))
                          else
                            (let (rc', w2) = engine_rc CursorSeek
                                               (unqlite_kv_cursor_seek ops cursor key) w1
                             in if rc' = UNQLITE_OK
                                then Some (fetchCursorData ops cursor b0 resultHandler w2)
                                else Some (b0, emit (Cout (''couldn't find value '' @ key @ endl)) w2)))
                 in case r of
                      None \<Rightarrow> None
                    | Some (b, w3) \<Rightarrow>
                        Some (snd (engine_rc CursorRelease (unqlite_kv_cursor_release ops p cursor)
                                     (emit (Free DataBuffer (dataBuffer b))
                                        (emit (Free KeyBuffer (keyBuffer b)) w3)))))))"

text \<open>\<open>Storage::read\<close> with a raw result handler: an exact-seek scan that hands on the
  value only.\<close>

definition read ::
  "('e, 'p, 'q) unqlite \<Rightarrow> string \<Rightarrow> (ptr \<Rightarrow> int \<Rightarrow> 'h \<Rightarrow> bool \<times> 'h) \<Rightarrow> 'h errorHandler
     \<Rightarrow> ('e, 'h, 'p) world \<Rightarrow> ('e, 'h, 'p) world option" where
  "read ops sKey resultHandler errorHandler w =
     scan ops (Some sKey)
       (\<lambda>keyPtr keySize valuePtr valueSize. resultHandler valuePtr valueSize) errorHandler w"

text \<open>\<open>Storage::read\<close> with a string result handler: \<open>std::string(ptr, size)\<close> is the first
  \<open>size\<close> bytes of the block; a null pointer is answered with \<open>true\<close> without calling the
  handler.\<close>

definition read_string ::
  "('e, 'p, 'q) unqlite \<Rightarrow> string \<Rightarrow> (string \<Rightarrow> 'h \<Rightarrow> bool \<times> 'h) \<Rightarrow> 'h errorHandler
     \<Rightarrow> ('e, 'h, 'p) world \<Rightarrow> ('e, 'h, 'p) world option" where
  "read_string ops sKey resultHandler errorHandler w =
     read ops sKey
       (\<lambda>ptr size h. case ptr of Some block \<Rightarrow> resultHandler (take (nat size) block) h
                      | None \<Rightarrow> (True, h))
       errorHandler w"

subsection \<open>A reference engine\<close>

text \<open>
  Modelled from the spec: the engine (unqlite) is an external library whose code is not
  part of the file. The definitions below follow the capability interface of the
  specification (open, close, begin, commit, rollback, store, delete, cursor
  open/seek/advance/valid/key/value/release, error-log query): one database file per
  path, holding key-value pairs; an open handle with a working copy that \<open>commit\<close>
  writes to the file and \<open>rollback\<close> resets from it; closing a handle persists its
  working copy; one cursor over the working copy. \<open>fault c\<close>, when not \<open>UNQLITE_OK\<close>,
  is the result code that entry point \<open>c\<close> reports without doing anything. The handle
  and cursor types are \<open>unit\<close>: there is one of each.
\<close>

type_synonym pairs = "(bytes \<times> bytes) list"

record ref_engine =
  files :: "(string \<times> pairs) list"
  opened :: "(string \<times> pairs) option"
  position :: "nat option"
  fault :: "engine_call \<Rightarrow> int"
  error_log :: string

fun put :: "'k \<Rightarrow> 'v \<Rightarrow> ('k \<times> 'v) list \<Rightarrow> ('k \<times> 'v) list" where
  "put k v [] = [(k, v)]"
| "put k v ((k', v') # kvs) = (if k = k' then (k, v) # kvs else (k', v') # put k v kvs)"

fun index_of :: "'k \<Rightarrow> ('k \<times> 'v) list \<Rightarrow> nat option" where
  "index_of k [] = None"
| "index_of k ((k', v') # kvs) = (if k = k' then Some 0 else map_option Suc (index_of k kvs))"

definition working :: "ref_engine \<Rightarrow> pairs" where
  "working e = (case opened e of None \<Rightarrow> [] | Some (path, kvs) \<Rightarrow> kvs)"

definition set_working :: "pairs \<Rightarrow> ref_engine \<Rightarrow> ref_engine" where
  "set_working kvs e = e\<lparr>opened := map_option (\<lambda>(path, old). (path, kvs)) (opened e)\<rparr>"

definition file_of :: "ref_engine \<Rightarrow> string \<Rightarrow> pairs" where
  "file_of e path = (case map_of (files e) path of None \<Rightarrow> [] | Some kvs \<Rightarrow> kvs)"

definition persist :: "ref_engine \<Rightarrow> ref_engine" where
  "persist e = (case opened e of None \<Rightarrow> e | Some (path, kvs) \<Rightarrow> e\<lparr>files := put path kvs (files e)\<rparr>)"

definition UNQLITE_NOTFOUND :: int where
  "UNQLITE_NOTFOUND = - 6"

definition UNQLITE_INVALID :: int where
  "UNQLITE_INVALID = - 9"

definition current :: "ref_engine \<Rightarrow> (bytes \<times> bytes) option" where
  "current e =
     (case position e of
        None \<Rightarrow> None
      | Some i \<Rightarrow> if i < length (working e) then Some (working e ! i) else None)"

definition ref_read :: "engine_call \<Rightarrow> bytes option \<Rightarrow> bool \<Rightarrow> int \<Rightarrow> ref_engine
     \<Rightarrow> (int \<times> bytes \<times> int) \<times> ref_engine" where
  "ref_read c item has_buffer n e =
     (if fault e c \<noteq> UNQLITE_OK then ((fault e c, [], n), e)
      else case item of
             None \<Rightarrow> ((UNQLITE_INVALID, [], n), e)
           | Some bs \<Rightarrow>
               if has_buffer then ((UNQLITE_OK, take (nat n) bs, int (length (take (nat n) bs))), e)
               else ((UNQLITE_OK, [], int (length bs)), e))"

definition ref_guard :: "engine_call \<Rightarrow> (ref_engine \<Rightarrow> ref_engine) \<Rightarrow> ref_engine \<Rightarrow> int \<times> ref_engine" where
  "ref_guard c f e = (if fault e c \<noteq> UNQLITE_OK then (fault e c, e) else (UNQLITE_OK, f e))"

text \<open>Modelled from the spec: the entry points of the engine, which are called but not
  defined in the file, on the state above.\<close>

definition ref_unqlite :: "(ref_engine, unit, unit) unqlite" where
  "ref_unqlite =
     \<lparr>unqlite_open = (\<lambda>path flags e.
        if fault e Open \<noteq> UNQLITE_OK then ((fault e Open, None), e)
        else ((UNQLITE_OK, Some ()), e\<lparr>opened := Some (path, file_of e path), position := None\<rparr>)),
      unqlite_close = (\<lambda>h e.
        case h of None \<Rightarrow> (UNQLITE_INVALID, e)
        | Some _ \<Rightarrow> (UNQLITE_OK, (persist e)\<lparr>opened := None, position := None\<rparr>)),
      unqlite_config_err_log = (\<lambda>p e. ((UNQLITE_OK, error_log e, int (length (error_log e))), e)),
      unqlite_begin = (\<lambda>p. ref_guard Begin (\<lambda>e. e)),
      unqlite_commit = (\<lambda>p. ref_guard Commit persist),
      unqlite_rollback = (\<lambda>p. ref_guard Rollback
        (\<lambda>e. case opened e of None \<Rightarrow> e | Some (path, kvs) \<Rightarrow> set_working (file_of e path) e)),
      unqlite_kv_store = (\<lambda>p key val. ref_guard KvStore (\<lambda>e. set_working (put key val (working e)) e)),
      unqlite_kv_delete = (\<lambda>p key e.
        if fault e KvDelete \<noteq> UNQLITE_OK then (fault e KvDelete, e)
        else if index_of key (working e) = None then (UNQLITE_NOTFOUND, e)
        else (UNQLITE_OK, set_working (filter (\<lambda>(k, v). k \<noteq> key) (working e)) e)),
      unqlite_kv_cursor_init = (\<lambda>p e.
        if fault e CursorInit \<noteq> UNQLITE_OK then ((fault e CursorInit, ()), e)
        else ((UNQLITE_OK, ()), e\<lparr>position := Some (length (working e))\<rparr>)),
      unqlite_kv_cursor_release = (\<lambda>p q e. (UNQLITE_OK, e\<lparr>position := None\<rparr>)),
      unqlite_kv_cursor_first_entry = (\<lambda>q. ref_guard CursorFirstEntry (\<lambda>e. e\<lparr>position := Some 0\<rparr>)),
      unqlite_kv_cursor_valid_entry = (\<lambda>q e. (if current e = None then 0 else 1, e)),
      unqlite_kv_cursor_next_entry = (\<lambda>q. ref_guard CursorNextEntry
        (\<lambda>e. e\<lparr>position := map_option Suc (position e)\<rparr>)),
      unqlite_kv_cursor_seek = (\<lambda>q key e.
        if fault e CursorSeek \<noteq> UNQLITE_OK then (fault e CursorSeek, e)
        else case index_of key (working e) of
               None \<Rightarrow> (UNQLITE_NOTFOUND, e\<lparr>position := Some (length (working e))\<rparr>)
             | Some i \<Rightarrow> (UNQLITE_OK, e\<lparr>position := Some i\<rparr>)),
      unqlite_kv_cursor_key = (\<lambda>q has_buffer n e.
        ref_read CursorKey (map_option fst (current e)) has_buffer n e),
      unqlite_kv_cursor_data = (\<lambda>q has_buffer n e.
        ref_read CursorData (map_option snd (current e)) has_buffer n e)\<rparr>"

text \<open>An engine with the given files, no open handle and no injected fault.\<close>

definition ref_files :: "(string \<times> pairs) list \<Rightarrow> ref_engine" where
  "ref_files fs = \<lparr>files = fs, opened = None, position = None,
                   fault = (\<lambda>c. UNQLITE_OK), error_log = []\<rparr>"

text \<open>The same with the result code \<open>rc\<close> injected at entry point \<open>c\<close>.\<close>

definition ref_faulty :: "(string \<times> pairs) list \<Rightarrow> engine_call \<Rightarrow> int \<Rightarrow> ref_engine" where
  "ref_faulty fs c rc = (ref_files fs)\<lparr>fault := (\<lambda>c'. if c' = c then rc else UNQLITE_OK)\<rparr>"

definition env0 :: "'e \<Rightarrow> 'h \<Rightarrow> ('e, 'h) env" where
  "env0 e h = \<lparr>engine = e, user = h, trace = []\<rparr>"

subsection \<open>Notions used in the statements\<close>

text \<open>The error of the operations that find the handle null.\<close>

definition not_open :: "('e, 'h, 'p) world \<Rightarrow> Error" where
  "not_open w = \<lparr>store = name (d w), code = - 1, message = ''Not open''\<rparr>"

text \<open>What was appended to the trace between two states.\<close>

definition new_events :: "('e, 'h, 'z) env_scheme \<Rightarrow> ('e, 'h, 'y) env_scheme \<Rightarrow> event list" where
  "new_events w w' = drop (length (trace w)) (trace w')"

fun is_result_call :: "event \<Rightarrow> bool" where
  "is_result_call (ResultCall keyPtr keySize valuePtr valueSize) = True"
| "is_result_call ev = False"

fun is_error_call :: "event \<Rightarrow> bool" where
  "is_error_call (ErrorCall error) = True"
| "is_error_call ev = False"

fun is_txn_call :: "event \<Rightarrow> bool" where
  "is_txn_call (Engine Begin rc) = True"
| "is_txn_call (Engine Commit rc) = True"
| "is_txn_call (Engine Rollback rc) = True"
| "is_txn_call ev = False"

text \<open>Reading a trace from its start: has the engine reported a successful begin that no
  commit or rollback followed?\<close>

fun begun :: "bool \<Rightarrow> event list \<Rightarrow> bool" where
  "begun b [] = b"
| "begun b (Engine Begin rc # evs) = begun (b \<or> rc = UNQLITE_OK) evs"
| "begun b (Engine Commit rc # evs) = begun False evs"
| "begun b (Engine Rollback rc # evs) = begun False evs"
| "begun b (ev # evs) = begun b evs"

definition txn_invariant :: "('e, 'h, 'p) world \<Rightarrow> bool" where
  "txn_invariant w = (inTransaction (d w) \<longrightarrow> db (d w) \<noteq> None \<and> begun False (trace w))"

text \<open>A step that leaves the object alone and calls none of the engine's begin, commit
  and rollback.\<close>

definition quiet_step :: "('e, 'h, 'p) world \<Rightarrow> ('e, 'h, 'p) world \<Rightarrow> bool" where
  "quiet_step w w' =
     (d w' = d w \<and> (\<exists>evs. trace w' = trace w @ evs \<and> (\<forall>ev\<in>set evs. \<not> is_txn_call ev)))"

text \<open>The operations of the class that act on the object, as values, and what each does
  to the world.\<close>

datatype 'h call =
  StartTransaction AccessMode
  | CommitTransaction
  | AbortTransaction
  | Write bytes bytes
  | WriteString string string
  | Read string "ptr \<Rightarrow> int \<Rightarrow> 'h \<Rightarrow> bool \<times> 'h" "'h errorHandler"
  | ReadString string "string \<Rightarrow> 'h \<Rightarrow> bool \<times> 'h" "'h errorHandler"
  | Remove bytes "'h errorHandler"
  | Scan ptr "'h resultHandler" "'h errorHandler"

fun perform ::
  "('e, 'p, 'q) unqlite \<Rightarrow> 'h call \<Rightarrow> ('e, 'h, 'p) world \<Rightarrow> ('e, 'h, 'p) world option" where
  "perform ops (StartTransaction type) w = Some (snd (startTransaction ops type w))"
| "perform ops CommitTransaction w = Some (snd (commitTransaction ops w))"
| "perform ops AbortTransaction w = Some (abortTransaction ops w)"
| "perform ops (Write key val) w = Some (snd (write_raw ops key val w))"
| "perform ops (WriteString sKey sValue) w = map_option snd (write_string ops sKey sValue w)"
| "perform ops (Read sKey resultHandler errorHandler) w = read ops sKey resultHandler errorHandler w"
| "perform ops (ReadString sKey resultHandler errorHandler) w =
     read_string ops sKey resultHandler errorHandler w"
| "perform ops (Remove keyData errorHandler) w = Some (remove ops keyData errorHandler w)"
| "perform ops (Scan keyData resultHandler errorHandler) w =
     scan ops keyData resultHandler errorHandler w"

text \<open>A result handler with the same effect as \<open>resultHandler\<close> that returns \<open>b\<close>.\<close>

definition returning :: "bool \<Rightarrow> 'h resultHandler \<Rightarrow> 'h resultHandler" where
  "returning b resultHandler =
     (\<lambda>keyPtr keySize valuePtr valueSize h.
        (b, snd (resultHandler keyPtr keySize valuePtr valueSize h)))"

text \<open>The cursor reports no valid entry after at most \<open>n\<close> rounds of the full scan's
  loop.\<close>

fun runs_out ::
  "nat \<Rightarrow> ('e, 'p, 'q) unqlite \<Rightarrow> 'q \<Rightarrow> 'h resultHandler \<Rightarrow> buffers \<Rightarrow> ('e, 'h, 'p) world \<Rightarrow> bool" where
  "runs_out 0 ops cursor resultHandler b w =
     (fst (unqlite_kv_cursor_valid_entry ops cursor (engine w)) = 0)"
| "runs_out (Suc n) ops cursor resultHandler b w =
     (fst (unqlite_kv_cursor_valid_entry ops cursor (engine w)) = 0
      \<or> (let w1 = snd (engine_rc CursorValidEntry (unqlite_kv_cursor_valid_entry ops cursor) w);
              (b2, w2) = fetchCursorData ops cursor b resultHandler w1;
              w3 = snd (engine_rc CursorNextEntry (unqlite_kv_cursor_next_entry ops cursor) w2)
          in runs_out n ops cursor resultHandler b2 w3))"

text \<open>The events of the rounds of the full scan's loop and of a fetch.\<close>

fun is_loop_event :: "event \<Rightarrow> bool" where
  "is_loop_event (Engine CursorValidEntry rc) = True"
| "is_loop_event (Engine CursorNextEntry rc) = True"
| "is_loop_event (Engine CursorKey rc) = True"
| "is_loop_event (Engine CursorData rc) = True"
| "is_loop_event (ResultCall keyPtr keySize valuePtr valueSize) = True"
| "is_loop_event ev = False"

text \<open>The events of a scan with an initialised cursor, before it gives its resources
  back.\<close>

fun is_scan_event :: "event \<Rightarrow> bool" where
  "is_scan_event (Engine CursorInit rc) = True"
| "is_scan_event (Engine CursorFirstEntry rc) = True"
| "is_scan_event (Engine CursorSeek rc) = True"
| "is_scan_event (Cout line) = True"
| "is_scan_event ev = is_loop_event ev"

text \<open>The events that give a resource of \<open>scan\<close> back.\<close>

fun is_release_event :: "event \<Rightarrow> bool" where
  "is_release_event (Free buf block) = True"
| "is_release_event (Engine CursorRelease rc) = True"
| "is_release_event ev = False"

text \<open>The cursor that \<open>scan\<close> obtains, and the world when a full scan enters its loop:
  after \<open>unqlite_kv_cursor_init\<close> and \<open>unqlite_kv_cursor_first_entry\<close>.\<close>

definition scan_cursor :: "('e, 'p, 'q) unqlite \<Rightarrow> 'p \<Rightarrow> ('e, 'h, 'p) world \<Rightarrow> 'q" where
  "scan_cursor ops p w = snd (fst (unqlite_kv_cursor_init ops p (engine w)))"

definition cursor_ready :: "('e, 'p, 'q) unqlite \<Rightarrow> 'p \<Rightarrow> ('e, 'h, 'p) world \<Rightarrow> ('e, 'h, 'p) world" where
  "cursor_ready ops p w =
     emit (Engine CursorInit (fst (fst (unqlite_kv_cursor_init ops p (engine w)))))
       (w\<lparr>engine := snd (unqlite_kv_cursor_init ops p (engine w))\<rparr>)"

definition loop_entry :: "('e, 'p, 'q) unqlite \<Rightarrow> 'p \<Rightarrow> ('e, 'h, 'p) world \<Rightarrow> ('e, 'h, 'p) world" where
  "loop_entry ops p w =
     snd (engine_rc CursorFirstEntry (unqlite_kv_cursor_first_entry ops (scan_cursor ops p w))
            (cursor_ready ops p w))"

definition no_buffers :: buffers where
  "no_buffers = \<lparr>keyBuffer = None, keyBufferLength = 0, dataBuffer = None, dataBufferLength = 0\<rparr>"

text \<open>The seek of an exact-seek scan: its result code and the world after it.\<close>

definition seek_result ::
  "('e, 'p, 'q) unqlite \<Rightarrow> 'p \<Rightarrow> bytes \<Rightarrow> ('e, 'h, 'p) world \<Rightarrow> int \<times> ('e, 'h, 'p) world" where
  "seek_result ops p key w =
     engine_rc CursorSeek (unqlite_kv_cursor_seek ops (scan_cursor ops p w) key) (cursor_ready ops p w)"

text \<open>What a scan with an initialised cursor does before it gives its resources back: the
  loop over all entries, or the seek with one fetch or the diagnostic line. The result is
  the buffers and the world it ends with.\<close>

definition iteration ::
  "('e, 'p, 'q) unqlite \<Rightarrow> 'p \<Rightarrow> ptr \<Rightarrow> 'h resultHandler \<Rightarrow> ('e, 'h, 'p) world
     \<Rightarrow> (buffers \<times> ('e, 'h, 'p) world) option" where
  "iteration ops p keyData resultHandler w =
     (if keyData = None \<or> keyData = Some []
      then scan_loop ops (scan_cursor ops p w) resultHandler no_buffers (loop_entry ops p w)
      else if fst (seek_result ops p (the keyData) w) = UNQLITE_OK
           then Some (fetchCursorData ops (scan_cursor ops p w) no_buffers resultHandler
                        (snd (seek_result ops p (the keyData) w)))
           else Some (no_buffers,
                      emit (Cout (''couldn't find value '' @ the keyData @ endl))
                        (snd (seek_result ops p (the keyData) w))))"

text \<open>\<open>free(keyBuffer); free(dataBuffer); unqlite_kv_cursor_release(d->db, cursor)\<close> on
  the handle \<open>p\<close>, the cursor and the buffers given.\<close>

definition release_all ::
  "('e, 'p, 'q) unqlite \<Rightarrow> 'p \<Rightarrow> 'q \<Rightarrow> buffers \<Rightarrow> ('e, 'h, 'p) world \<Rightarrow> ('e, 'h, 'p) world" where
  "release_all ops p cursor b w =
     snd (engine_rc CursorRelease (unqlite_kv_cursor_release ops p cursor)
            (emit (Free DataBuffer (dataBuffer b)) (emit (Free KeyBuffer (keyBuffer b)) w)))"

text \<open>One round of the full scan's loop on a valid entry: the test of the cursor, the
  fetch, the advance. \<open>rounds n\<close>: the cursor reports a valid entry at the start of each of
  the first \<open>n\<close> rounds and none after them.\<close>

definition cursor_valid :: "('e, 'p, 'q) unqlite \<Rightarrow> 'q \<Rightarrow> ('e, 'h, 'p) world \<Rightarrow> bool" where
  "cursor_valid ops cursor w = (fst (unqlite_kv_cursor_valid_entry ops cursor (engine w)) \<noteq> 0)"

definition scan_round ::
  "('e, 'p, 'q) unqlite \<Rightarrow> 'q \<Rightarrow> 'h resultHandler \<Rightarrow> buffers \<times> ('e, 'h, 'p) world
     \<Rightarrow> buffers \<times> ('e, 'h, 'p) world" where
  "scan_round ops cursor resultHandler bw =
     (let w1 = snd (engine_rc CursorValidEntry (unqlite_kv_cursor_valid_entry ops cursor) (snd bw));
          (b2, w2) = fetchCursorData ops cursor (fst bw) resultHandler w1
      in (b2, snd (engine_rc CursorNextEntry (unqlite_kv_cursor_next_entry ops cursor) w2)))"

fun rounds ::
  "nat \<Rightarrow> ('e, 'p, 'q) unqlite \<Rightarrow> 'q \<Rightarrow> 'h resultHandler \<Rightarrow> buffers \<times> ('e, 'h, 'p) world \<Rightarrow> bool" where
  "rounds 0 ops cursor resultHandler bw = (\<not> cursor_valid ops cursor (snd bw))"
| "rounds (Suc n) ops cursor resultHandler bw =
     (cursor_valid ops cursor (snd bw)
      \<and> rounds n ops cursor resultHandler (scan_round ops cursor resultHandler bw))"

text \<open>A string-valued result handler that records what it is given and returns \<open>b\<close>; an
  error handler that does nothing.\<close>

definition record_value :: "bool \<Rightarrow> string \<Rightarrow> string list \<Rightarrow> bool \<times> string list" where
  "record_value b v h = (b, h @ [v])"

definition record_pair :: "bool \<Rightarrow> string list resultHandler" where
  "record_pair b keyPtr keySize valuePtr valueSize h =
     (b, h @ [take (nat keySize) (case keyPtr of None \<Rightarrow> [] | Some block \<Rightarrow> block)])"

definition ignore_error :: "'h errorHandler" where
  "ignore_error error h = h"

text \<open>The file of the store \<open>inbox\<close> under \<open>/r\<close> with two pairs in it.\<close>

definition two_pairs :: "(string \<times> pairs) list" where
  "two_pairs = [(''/r/unqlite/inbox'', [(''a'', ''1''), (''bc'', ''234'')])]"

text \<open>The store \<open>inbox\<close> under \<open>/r\<close>, opened read-write on the reference engine \<open>e\<close>.\<close>

definition inbox :: "ref_engine \<Rightarrow> (ref_engine, string list, unit) world" where
  "inbox e = Storage ref_unqlite ''/r'' ''inbox'' ReadWrite False (env0 e [])"

text \<open>Raw writes one after the other.\<close>

fun writes ::
  "('e, 'p, 'q) unqlite \<Rightarrow> (bytes \<times> bytes) list \<Rightarrow> ('e, 'h, 'p) world \<Rightarrow> ('e, 'h, 'p) world" where
  "writes ops [] w = w"
| "writes ops ((key, val) # kvs) w = writes ops kvs (snd (write_raw ops key val w))"

text \<open>The store with two pairs, a transaction begun on it and two writes made since.\<close>

definition pending :: "(ref_engine, string list, unit) world" where
  "pending = writes ref_unqlite [(''c'', ''9''), (''a'', ''0'')]
               (snd (startTransaction ref_unqlite ReadWrite (inbox (ref_files two_pairs))))"

text \<open>The same on an engine whose rollback fails.\<close>

definition pending_unrolled :: "(ref_engine, string list, unit) world" where
  "pending_unrolled = writes ref_unqlite [(''c'', ''9''), (''a'', ''0'')]
               (snd (startTransaction ref_unqlite ReadWrite (inbox (ref_faulty two_pairs Rollback (- 1)))))"

section \<open>Properties\<close>

subsection \<open>Auxiliary facts\<close>

lemmas engine_defs = ref_unqlite_def ref_files_def ref_faulty_def ref_guard_def ref_read_def
  current_def working_def set_working_def file_of_def persist_def UNQLITE_OK_def
  UNQLITE_NOTFOUND_def UNQLITE_INVALID_def

lemmas storage_defs = Let_def Storage_def env0_def emit_def engine_rc_def call_error_def
  err_log_def reportDbError_def reportDbError3_def s_unqliteDir_def endl_def
  isInTransaction_def startTransaction_def commitTransaction_def abortTransaction_def
  Storage_destroy_def write_raw_def write_string_def string_block_def remove_def
  inbox_def world.defs env.defs

lemma emit_simps [simp]:
  "d (emit ev w) = d w" "engine (emit ev w) = engine w" "user (emit ev w) = user w"
  "trace (emit ev w) = trace w @ [ev]"
  by (simp_all add: emit_def)

lemma reportDbError_d [simp]: "d (reportDbError ops f w) = d w"
  by (simp add: reportDbError_def err_log_def Let_def split_beta split: option.split)

lemma reportDbError_user [simp]: "user (reportDbError ops f w) = user w"
  by (simp add: reportDbError_def err_log_def Let_def split_beta split: option.split)

lemma call_error_simps [simp]:
  "d (call_error eh err w) = d w" "engine (call_error eh err w) = engine w"
  "user (call_error eh err w) = eh err (user w)"
  "trace (call_error eh err w) = trace w @ [ErrorCall err]"
  by (simp_all add: call_error_def)

lemma new_events_append [simp]: "trace w' = trace w @ evs \<Longrightarrow> new_events w w' = evs"
  by (simp add: new_events_def)

lemma cursor_read_simps [simp]:
  "d (snd (cursor_read c f w)) = d w" "user (snd (cursor_read c f w)) = user w"
  "trace (snd (cursor_read c f w)) = trace w @ [Engine c (fst (fst (cursor_read c f w)))]"
  by (simp_all add: cursor_read_def split_beta)

lemma engine_rc_simps [simp]:
  "d (snd (engine_rc c f w)) = d w" "user (snd (engine_rc c f w)) = user w"
  "trace (snd (engine_rc c f w)) = trace w @ [Engine c (fst (engine_rc c f w))]"
  "fst (engine_rc c f w) = fst (f (engine w))"
  "engine (snd (engine_rc c f w)) = snd (f (engine w))"
  by (simp_all add: engine_rc_def split_beta)

subsection \<open>Committing\<close>

text \<open>
  C2. On a store with an open handle and an active transaction, \<open>commitTransaction\<close>
  leaves \<open>isInTransaction\<close> false whatever the engine's commit reports, and returns true
  exactly when the engine's commit reported \<open>UNQLITE_OK\<close>.
\<close>

theorem commitTransaction_ends_transaction:
  assumes "db (d w) = Some p" and "isInTransaction w"
  shows "\<not> isInTransaction (snd (commitTransaction ops w))
         \<and> (fst (commitTransaction ops w) \<longleftrightarrow> fst (unqlite_commit ops p (engine w)) = UNQLITE_OK)"
  using assms
  by (simp add: commitTransaction_def isInTransaction_def engine_rc_def Let_def split: prod.split)

text \<open>The witness: a store whose engine fails the commit.\<close>

theorem commitTransaction_ends_transaction_witness:
  "db (d (snd (startTransaction ref_unqlite ReadWrite (inbox (ref_faulty [] Commit (- 1)))))) = Some ()
   \<and> isInTransaction (snd (startTransaction ref_unqlite ReadWrite (inbox (ref_faulty [] Commit (- 1)))))
   \<and> \<not> isInTransaction (snd (commitTransaction ref_unqlite
            (snd (startTransaction ref_unqlite ReadWrite (inbox (ref_faulty [] Commit (- 1)))))))
   \<and> \<not> fst (commitTransaction ref_unqlite
            (snd (startTransaction ref_unqlite ReadWrite (inbox (ref_faulty [] Commit (- 1))))))"
proof -
  let ?w = "snd (startTransaction ref_unqlite ReadWrite (inbox (ref_faulty [] Commit (- 1))))"
  have o: "db (d ?w) = Some ()"
    by (simp add: storage_defs engine_defs)
  have a: "isInTransaction ?w"
    by (simp add: storage_defs engine_defs)
  have f: "fst (unqlite_commit ref_unqlite () (engine ?w)) \<noteq> UNQLITE_OK"
    by (simp add: storage_defs engine_defs)
  from commitTransaction_ends_transaction [where ops = ref_unqlite, OF o a] f o a
  show ?thesis by simp
qed

subsection \<open>Starting twice, committing and aborting while idle\<close>

text \<open>
  C4, as stated, fails: on an open store whose engine refuses to begin a transaction,
  \<open>startTransaction\<close> returns false, twice in a row, and the store stays idle.
\<close>

theorem startTransaction_twice_counterexample:
  "exists_db (inbox (ref_faulty [] Begin (- 1)))
   \<and> \<not> fst (startTransaction ref_unqlite ReadWrite (inbox (ref_faulty [] Begin (- 1))))
   \<and> \<not> fst (startTransaction ref_unqlite ReadWrite
              (snd (startTransaction ref_unqlite ReadWrite (inbox (ref_faulty [] Begin (- 1))))))
   \<and> \<not> isInTransaction (snd (startTransaction ref_unqlite ReadWrite
              (snd (startTransaction ref_unqlite ReadWrite (inbox (ref_faulty [] Begin (- 1)))))))"
  by (simp add: exists_db_def storage_defs engine_defs)

lemma startTransaction_active:
  "db (d w) = Some p \<Longrightarrow> inTransaction (d w) \<Longrightarrow> startTransaction ops t w = (True, w)"
  by (simp add: startTransaction_def)

lemma startTransaction_begin_ok:
  "db (d w) = Some p \<Longrightarrow> \<not> inTransaction (d w) \<Longrightarrow> fst (unqlite_begin ops p (engine w)) = UNQLITE_OK
   \<Longrightarrow> fst (startTransaction ops t w) \<and> inTransaction (d (snd (startTransaction ops t w)))
       \<and> db (d (snd (startTransaction ops t w))) = Some p"
  by (auto simp: startTransaction_def engine_rc_def Let_def split: prod.split)

text \<open>
  C4, amended. On an open store on which a transaction is already active or the engine's
  begin succeeds, \<open>startTransaction\<close> called twice in a row returns true both times and
  leaves the store active, the second call changing nothing. On an open idle store
  \<open>commitTransaction\<close> returns true and \<open>abortTransaction\<close> (which has no return value)
  returns, each leaving the store as it was.
\<close>

theorem startTransaction_twice:
  assumes "db (d w) = Some p"
  shows "(isInTransaction w \<or> fst (unqlite_begin ops p (engine w)) = UNQLITE_OK \<longrightarrow>
            fst (startTransaction ops t w)
            \<and> startTransaction ops t' (snd (startTransaction ops t w))
                = (True, snd (startTransaction ops t w))
            \<and> isInTransaction (snd (startTransaction ops t w)))
         \<and> (\<not> isInTransaction w \<longrightarrow>
              commitTransaction ops w = (True, w) \<and> abortTransaction ops w = w)"
proof -
  have idle: "\<not> isInTransaction w \<longrightarrow> commitTransaction ops w = (True, w) \<and> abortTransaction ops w = w"
    using assms by (simp add: isInTransaction_def commitTransaction_def abortTransaction_def)
  have twice: "fst (startTransaction ops t w)
            \<and> startTransaction ops t' (snd (startTransaction ops t w))
                = (True, snd (startTransaction ops t w))
            \<and> isInTransaction (snd (startTransaction ops t w))"
    if h: "isInTransaction w \<or> fst (unqlite_begin ops p (engine w)) = UNQLITE_OK"
  proof (cases "inTransaction (d w)")
    case True
    with assms show ?thesis
      by (simp add: startTransaction_active isInTransaction_def)
  next
    case False
    with h have ok: "fst (unqlite_begin ops p (engine w)) = UNQLITE_OK"
      by (simp add: isInTransaction_def)
    from startTransaction_begin_ok [OF assms False ok, of t]
    show ?thesis
      by (simp add: startTransaction_active isInTransaction_def)
  qed
  from idle twice show ?thesis by blast
qed

theorem startTransaction_twice_witness:
  "db (d (inbox (ref_files []))) = Some ()
   \<and> fst (unqlite_begin ref_unqlite () (engine (inbox (ref_files [])))) = UNQLITE_OK
   \<and> \<not> isInTransaction (inbox (ref_files []))
   \<and> fst (startTransaction ref_unqlite ReadWrite (inbox (ref_files [])))
   \<and> fst (startTransaction ref_unqlite ReadWrite
            (snd (startTransaction ref_unqlite ReadWrite (inbox (ref_files [])))))
   \<and> isInTransaction (snd (startTransaction ref_unqlite ReadWrite (inbox (ref_files []))))
   \<and> commitTransaction ref_unqlite (inbox (ref_files [])) = (True, inbox (ref_files []))
   \<and> abortTransaction ref_unqlite (inbox (ref_files [])) = inbox (ref_files [])"
proof -
  have o: "db (d (inbox (ref_files []))) = Some ()"
    by (simp add: storage_defs engine_defs)
  have b: "fst (unqlite_begin ref_unqlite () (engine (inbox (ref_files [])))) = UNQLITE_OK"
    by (simp add: storage_defs engine_defs)
  have i: "\<not> isInTransaction (inbox (ref_files []))"
    by (simp add: storage_defs engine_defs)
  from startTransaction_twice [where ops = ref_unqlite and t = ReadWrite and t' = ReadWrite, OF o] b i o
  show ?thesis by simp
qed

subsection \<open>The null handle\<close>

text \<open>
  C5. On a store whose handle is null every operation returns: \<open>write\<close> (both forms),
  \<open>startTransaction\<close> and \<open>commitTransaction\<close> return false and change nothing, as
  \<open>abortTransaction\<close> changes nothing; \<open>read\<close>
  (both forms), \<open>remove\<close> and \<open>scan\<close> call the error handler once with the error of code
  \<open>-1\<close> and message \<open>Not open\<close>, and call the engine not at all.
\<close>

theorem null_handle_operations:
  assumes "db (d w) = None"
  shows "write_raw ops key val w = (False, w)
     \<and> write_string ops sKey sValue w = Some (False, w)
     \<and> startTransaction ops t w = (False, w)
     \<and> commitTransaction ops w = (False, w)
     \<and> abortTransaction ops w = w
     \<and> scan ops keyData resultHandler errorHandler w = Some (call_error errorHandler (not_open w) w)
     \<and> read ops sKey rawHandler errorHandler w = Some (call_error errorHandler (not_open w) w)
     \<and> read_string ops sKey stringHandler errorHandler w = Some (call_error errorHandler (not_open w) w)
     \<and> remove ops key errorHandler w = call_error errorHandler (not_open w) w
     \<and> code (not_open w) = - 1 \<and> message (not_open w) = ''Not open''
     \<and> engine (call_error errorHandler (not_open w) w) = engine w
     \<and> new_events w (call_error errorHandler (not_open w) w) = [ErrorCall (not_open w)]"
  using assms
  by (simp add: write_raw_def write_string_def startTransaction_def commitTransaction_def
      abortTransaction_def scan_def read_def read_string_def remove_def not_open_def)

text \<open>The witness: a store whose engine failed to open the file.\<close>

theorem null_handle_operations_witness:
  "db (d (inbox (ref_faulty [] Open (- 2)))) = None
   \<and> write_string ref_unqlite ''msg1'' ''hello'' (inbox (ref_faulty [] Open (- 2)))
       = Some (False, inbox (ref_faulty [] Open (- 2)))
   \<and> map_option (new_events (inbox (ref_faulty [] Open (- 2))))
        (read_string ref_unqlite ''msg1'' (record_value True) ignore_error
           (inbox (ref_faulty [] Open (- 2))))
       = Some [ErrorCall \<lparr>store = ''inbox'', code = - 1, message = ''Not open''\<rparr>]"
proof -
  have n: "db (d (inbox (ref_faulty [] Open (- 2)))) = None"
    by (simp add: storage_defs engine_defs)
  have m: "name (d (inbox (ref_faulty [] Open (- 2)))) = ''inbox''"
    by (simp add: storage_defs engine_defs)
  from null_handle_operations [where ops = ref_unqlite, OF n] n m
  show ?thesis by (simp add: not_open_def)
qed

subsection \<open>Removing\<close>

text \<open>
  C8. \<open>remove\<close> calls the error handler exactly when the handle is null, then with the
  \<open>Not open\<close> error and without a call of the engine; with an open handle it calls the
  engine's delete once and leaves the error handler alone, whatever the delete reports.
\<close>

theorem remove_reports_only_not_open:
  "new_events w (remove ops key errorHandler w) =
     (case db (d w) of
        None \<Rightarrow> [ErrorCall (not_open w)]
      | Some p \<Rightarrow> [Engine KvDelete (fst (unqlite_kv_delete ops p key (engine w)))])
   \<and> user (remove ops key errorHandler w) =
       (case db (d w) of None \<Rightarrow> errorHandler (not_open w) (user w) | Some p \<Rightarrow> user w)
   \<and> engine (remove ops key errorHandler w) =
       (case db (d w) of None \<Rightarrow> engine w | Some p \<Rightarrow> snd (unqlite_kv_delete ops p key (engine w)))
   \<and> ((filter is_error_call (new_events w (remove ops key errorHandler w)) \<noteq> []) = (db (d w) = None))"
  by (simp add: remove_def not_open_def engine_rc_def split: option.split prod.split)

subsection \<open>The scan loop\<close>

lemma call_result_returning:
  "snd (call_result (returning r rh) kp ks vp vs w) = snd (call_result rh kp ks vp vs w)"
  by (simp add: call_result_def returning_def split_beta)

lemma fetchCursorData_returning:
  "fetchCursorData ops c b (returning r rh) w = fetchCursorData ops c b rh w"
  by (simp add: fetchCursorData_def call_result_returning Let_def split_beta)

lemma call_result_simps [simp]:
  "d (snd (call_result rh kp ks vp vs w)) = d w"
  "trace (snd (call_result rh kp ks vp vs w)) = trace w @ [ResultCall kp ks vp vs]"
  by (simp_all add: call_result_def split_beta)

lemma fetchCursorData_d [simp]: "d (snd (fetchCursorData ops c b rh w)) = d w"
  by (simp add: fetchCursorData_def Let_def split_beta)

lemma fetchCursorData_trace:
  "\<exists>evs. trace (snd (fetchCursorData ops c b rh w)) = trace w @ evs \<and> (\<forall>ev\<in>set evs. is_loop_event ev)"
  by (simp add: fetchCursorData_def Let_def split_beta)

lemma scan_loop_unfold:
  "scan_loop ops c rh b w =
     (if fst (unqlite_kv_cursor_valid_entry ops c (engine w)) \<noteq> 0
      then scan_loop ops c rh
             (fst (fetchCursorData ops c b rh
                     (snd (engine_rc CursorValidEntry (unqlite_kv_cursor_valid_entry ops c) w))))
             (snd (engine_rc CursorNextEntry (unqlite_kv_cursor_next_entry ops c)
                     (snd (fetchCursorData ops c b rh
                             (snd (engine_rc CursorValidEntry (unqlite_kv_cursor_valid_entry ops c) w))))))
      else Some (b, snd (engine_rc CursorValidEntry (unqlite_kv_cursor_valid_entry ops c) w)))"
  by (subst scan_loop.simps) (simp add: Let_def split_beta)

lemma scan_loop_trace:
  assumes r: "scan_loop ops c rh b w = Some y"
  shows "d (snd y) = d w \<and> (\<exists>pre. trace (snd y) = trace w @ pre @ [Engine CursorValidEntry 0]
            \<and> (\<forall>ev\<in>set pre. is_loop_event ev))"
proof (rule scan_loop.raw_induct [where P = "\<lambda>ops c rh b w y.
    d (snd y) = d w \<and> (\<exists>pre. trace (snd y) = trace w @ pre @ [Engine CursorValidEntry 0]
            \<and> (\<forall>ev\<in>set pre. is_loop_event ev))", OF _ r], goal_cases)
  case (1 f ops c rh b w y)
  let ?v = "engine_rc CursorValidEntry (unqlite_kv_cursor_valid_entry ops c) w"
  let ?f = "fetchCursorData ops c b rh (snd ?v)"
  let ?n = "engine_rc CursorNextEntry (unqlite_kv_cursor_next_entry ops c) (snd ?f)"
  show ?case
  proof (cases "fst ?v \<noteq> 0")
    case True
    with 1(2) have "f ops c rh (fst ?f) (snd ?n) = Some y"
      by (simp add: Let_def split_beta)
    from 1(1) [OF this] obtain pre where
      dy: "d (snd y) = d (snd ?n)"
      and ty: "trace (snd y) = trace (snd ?n) @ pre @ [Engine CursorValidEntry 0]"
      and pre: "\<forall>ev\<in>set pre. is_loop_event ev"
      by blast
    from fetchCursorData_trace [of ops c b rh "snd ?v"] obtain evs where
      tf: "trace (snd ?f) = trace (snd ?v) @ evs" and evs: "\<forall>ev\<in>set evs. is_loop_event ev"
      by blast
    have "trace (snd y) = trace w @ ([Engine CursorValidEntry (fst ?v)] @ evs
             @ [Engine CursorNextEntry (fst ?n)] @ pre) @ [Engine CursorValidEntry 0]"
      using ty tf by simp
    moreover have "\<forall>ev\<in>set ([Engine CursorValidEntry (fst ?v)] @ evs
             @ [Engine CursorNextEntry (fst ?n)] @ pre). is_loop_event ev"
      using pre evs by auto
    ultimately show ?thesis using dy by (metis engine_rc_simps(1) fetchCursorData_d)
  next
    case False
    with 1(2) have "y = (b, snd ?v)"
      by (simp add: Let_def split_beta)
    with False show ?thesis by simp
  qed
qed

lemma scan_loop_fetch_cong:
  assumes eq: "\<And>b w. fetchCursorData ops c b rh w = fetchCursorData ops c b rh' w"
    and r: "scan_loop ops c rh b w = Some y"
  shows "scan_loop ops c rh' b w = Some y"
proof -
  have "ops1 = ops \<longrightarrow> c1 = c \<longrightarrow> rh1 = rh \<longrightarrow> scan_loop ops c rh' b w = Some y"
    if r: "scan_loop ops1 c1 rh1 b w = Some y" for ops1 c1 rh1 b w y
  proof (rule scan_loop.raw_induct [where P = "\<lambda>ops1 c1 rh1 b w y.
      ops1 = ops \<longrightarrow> c1 = c \<longrightarrow> rh1 = rh \<longrightarrow> scan_loop ops c rh' b w = Some y", OF _ r], goal_cases)
    case (1 f ops1 c1 rh1 b w y)
    show ?case
    proof (intro impI)
      assume eqs: "ops1 = ops" "c1 = c" "rh1 = rh"
      let ?v = "engine_rc CursorValidEntry (unqlite_kv_cursor_valid_entry ops c) w"
      let ?f = "fetchCursorData ops c b rh (snd ?v)"
      let ?n = "engine_rc CursorNextEntry (unqlite_kv_cursor_next_entry ops c) (snd ?f)"
      show "scan_loop ops c rh' b w = Some y"
      proof (cases "fst ?v \<noteq> 0")
        case True
        with 1(2) eqs have "f ops c rh (fst ?f) (snd ?n) = Some y"
          by (simp add: Let_def split_beta)
        with 1(1) have "scan_loop ops c rh' (fst ?f) (snd ?n) = Some y" by blast
        with True show ?thesis
          by (subst scan_loop_unfold) (simp add: eq [symmetric])
      next
        case False
        with 1(2) eqs have "y = (b, snd ?v)"
          by (simp add: Let_def split_beta)
        with False show ?thesis
          by (subst scan_loop_unfold) simp
      qed
    qed
  qed
  with r show ?thesis by blast
qed

lemma scan_loop_returning:
  "scan_loop ops c (returning r rh) b w = scan_loop ops c rh b w"
proof (cases "scan_loop ops c rh b w")
  case (Some y)
  from scan_loop_fetch_cong [OF _ this, of "returning r rh"] Some show ?thesis
    by (simp add: fetchCursorData_returning)
next
  case None
  show ?thesis
  proof (cases "scan_loop ops c (returning r rh) b w")
    case (Some y)
    from scan_loop_fetch_cong [OF _ this, of rh] None show ?thesis
      by (simp add: fetchCursorData_returning)
  next
    case None': None
    with None show ?thesis by simp
  qed
qed

lemma runs_out_returns:
  "runs_out n ops c rh b w \<Longrightarrow> scan_loop ops c rh b w \<noteq> None"
proof (induction n arbitrary: b w)
  case 0
  then show ?case
    by (subst scan_loop_unfold) simp
next
  case (Suc n)
  show ?case
  proof (cases "fst (unqlite_kv_cursor_valid_entry ops c (engine w)) = 0")
    case True
    then show ?thesis
      by (subst scan_loop_unfold) simp
  next
    case False
    with Suc.prems have "runs_out n ops c rh
       (fst (fetchCursorData ops c b rh (snd (engine_rc CursorValidEntry (unqlite_kv_cursor_valid_entry ops c) w))))
       (snd (engine_rc CursorNextEntry (unqlite_kv_cursor_next_entry ops c)
          (snd (fetchCursorData ops c b rh (snd (engine_rc CursorValidEntry (unqlite_kv_cursor_valid_entry ops c) w))))))"
      by (simp add: Let_def split_beta)
    from Suc.IH [OF this] False show ?thesis
      by (subst scan_loop_unfold) simp
  qed
qed

subsection \<open>Scanning an open store\<close>

lemma release_all_simps [simp]:
  "trace (release_all ops p c b w) = trace w @
     [Free KeyBuffer (keyBuffer b), Free DataBuffer (dataBuffer b),
      Engine CursorRelease (fst (unqlite_kv_cursor_release ops p c (engine w)))]"
  "engine (release_all ops p c b w) = snd (unqlite_kv_cursor_release ops p c (engine w))"
  "user (release_all ops p c b w) = user w"
  "d (release_all ops p c b w) = d w"
  by (simp_all add: release_all_def)

lemma scan_open:
  assumes "db (d w) = Some p" and "fst (fst (unqlite_kv_cursor_init ops p (engine w))) = UNQLITE_OK"
  shows "scan ops keyData rh eh w =
     map_option (\<lambda>(b, w3). release_all ops p (scan_cursor ops p w) b w3)
       (iteration ops p keyData rh w)"
proof (cases "keyData = None \<or> keyData = Some []")
  case True
  with assms show ?thesis
    by (auto simp: scan_def iteration_def release_all_def scan_cursor_def cursor_ready_def
        loop_entry_def no_buffers_def Let_def split_beta option.map_sel split: option.split)
next
  case False
  then obtain key where "keyData = Some key" "key \<noteq> []"
    by auto
  with assms show ?thesis
    by (simp add: scan_def iteration_def release_all_def seek_result_def scan_cursor_def
        cursor_ready_def no_buffers_def Let_def split_beta)
qed

lemma loop_event_scan_event: "is_loop_event ev \<Longrightarrow> is_scan_event ev"
  by (cases ev rule: is_scan_event.cases) simp_all

lemma scan_event_not_release: "is_scan_event ev \<Longrightarrow> \<not> is_release_event ev"
  by (cases ev rule: is_scan_event.cases) simp_all

lemma scan_event_not_txn: "is_scan_event ev \<Longrightarrow> \<not> is_txn_call ev"
  by (cases ev rule: is_scan_event.cases) simp_all

lemmas scan_defs = scan_def scan_loop_unfold fetchCursorData_def cursor_read_def call_result_def
  read_def read_string_def record_pair_def record_value_def ignore_error_def realloc_def
  copy_into_def int_of_int64_def new_events_def two_pairs_def

lemma seek_result_simps [simp]:
  "d (snd (seek_result ops p key w)) = d w"
  "user (snd (seek_result ops p key w)) = user w"
  "trace (snd (seek_result ops p key w)) = trace w @
     [Engine CursorInit (fst (fst (unqlite_kv_cursor_init ops p (engine w)))),
      Engine CursorSeek (fst (seek_result ops p key w))]"
  "fst (seek_result ops p key w) =
     fst (unqlite_kv_cursor_seek ops (scan_cursor ops p w) key (engine (cursor_ready ops p w)))"
  "engine (snd (seek_result ops p key w)) =
     snd (unqlite_kv_cursor_seek ops (scan_cursor ops p w) key (engine (cursor_ready ops p w)))"
  by (simp_all add: seek_result_def cursor_ready_def)

lemma iteration_trace:
  assumes i: "fst (fst (unqlite_kv_cursor_init ops p (engine w))) = UNQLITE_OK"
    and r: "iteration ops p keyData rh w = Some (b, w3)"
  shows "d w3 = d w \<and> (\<exists>pre. trace w3 = trace w @ pre
           \<and> (\<forall>ev\<in>set pre. is_scan_event ev)
           \<and> (keyData = None \<or> keyData = Some [] \<longrightarrow>
                (\<exists>rcf evs. pre = Engine CursorInit UNQLITE_OK # Engine CursorFirstEntry rcf # evs
                     @ [Engine CursorValidEntry 0] \<and> (\<forall>ev\<in>set evs. is_loop_event ev))))"
proof (cases "keyData = None \<or> keyData = Some []")
  case True
  with r have l: "scan_loop ops (scan_cursor ops p w) rh no_buffers (loop_entry ops p w) = Some (b, w3)"
    by (simp add: iteration_def)
  from scan_loop_trace [OF l] obtain evs where
    dw: "d w3 = d (loop_entry ops p w)"
    and tw: "trace w3 = trace (loop_entry ops p w) @ evs @ [Engine CursorValidEntry 0]"
    and evs: "\<forall>ev\<in>set evs. is_loop_event ev"
    by auto
  let ?rcf = "fst (unqlite_kv_cursor_first_entry ops (scan_cursor ops p w) (engine (cursor_ready ops p w)))"
  let ?pre = "Engine CursorInit UNQLITE_OK # Engine CursorFirstEntry ?rcf # evs @ [Engine CursorValidEntry 0]"
  have te: "trace (loop_entry ops p w) = trace w @ [Engine CursorInit UNQLITE_OK, Engine CursorFirstEntry ?rcf]"
    using i by (simp add: loop_entry_def cursor_ready_def)
  have "trace w3 = trace w @ ?pre"
    using tw te by simp
  moreover have "\<forall>ev\<in>set ?pre. is_scan_event ev"
    using evs by (auto dest: loop_event_scan_event)
  moreover have "d w3 = d w"
    using dw by (simp add: loop_entry_def cursor_ready_def)
  ultimately show ?thesis using evs by blast
next
  case False
  then obtain key where k: "keyData = Some key" "key \<noteq> []"
    by auto
  let ?s = "seek_result ops p key w"
  show ?thesis
  proof (cases "fst ?s = UNQLITE_OK")
    case True
    let ?f = "fetchCursorData ops (scan_cursor ops p w) no_buffers rh (snd ?s)"
    from True k r have w3: "w3 = snd ?f"
      by (simp add: iteration_def)
    from fetchCursorData_trace [of ops "scan_cursor ops p w" no_buffers rh "snd ?s"] obtain evs where
      tf: "trace (snd ?f) = trace (snd ?s) @ evs" and evs: "\<forall>ev\<in>set evs. is_loop_event ev"
      by blast
    let ?pre = "Engine CursorInit UNQLITE_OK # Engine CursorSeek (fst ?s) # evs"
    have "trace w3 = trace w @ ?pre"
      using w3 tf i by simp
    moreover have "\<forall>ev\<in>set ?pre. is_scan_event ev"
      using evs by (auto dest: loop_event_scan_event)
    moreover have "d w3 = d w"
      using w3 by simp
    ultimately show ?thesis using False by blast
  next
    case nf: False
    from nf k r have w3: "w3 = emit (Cout (''couldn't find value '' @ key @ endl)) (snd ?s)"
      by (simp add: iteration_def)
    let ?pre = "[Engine CursorInit UNQLITE_OK, Engine CursorSeek (fst ?s),
                 Cout (''couldn't find value '' @ key @ endl)]"
    have "trace w3 = trace w @ ?pre"
      using w3 i by simp
    moreover have "\<forall>ev\<in>set ?pre. is_scan_event ev"
      by simp
    moreover have "d w3 = d w"
      using w3 by simp
    ultimately show ?thesis using False by blast
  qed
qed

lemma iteration_returns:
  assumes "(keyData = None \<or> keyData = Some []) \<longrightarrow>
              runs_out n ops (scan_cursor ops p w) rh no_buffers (loop_entry ops p w)"
  shows "iteration ops p keyData rh w \<noteq> None"
  using assms by (auto simp: iteration_def dest: runs_out_returns)

lemma scan_returns:
  assumes o: "db (d w) = Some p" and i: "fst (fst (unqlite_kv_cursor_init ops p (engine w))) = UNQLITE_OK"
    and t: "(keyData = None \<or> keyData = Some []) \<longrightarrow>
              runs_out n ops (scan_cursor ops p w) rh no_buffers (loop_entry ops p w)"
  shows "scan ops keyData rh eh w \<noteq> None"
  using iteration_returns [OF t] by (simp add: scan_open [OF o i])

lemma scan_returning:
  "scan ops keyData (returning r rh) eh w = scan ops keyData rh eh w"
  unfolding scan_def scan_loop_returning fetchCursorData_returning by (rule refl)

lemma inbox_two_pairs:
  "db (d (inbox (ref_files two_pairs))) = Some ()"
  "fst (fst (unqlite_kv_cursor_init ref_unqlite () (engine (inbox (ref_files two_pairs))))) = UNQLITE_OK"
  "runs_out 2 ref_unqlite (scan_cursor ref_unqlite () (inbox (ref_files two_pairs)))
     (record_pair False) no_buffers (loop_entry ref_unqlite () (inbox (ref_files two_pairs)))"
  by code_simp+

lemma inbox_faulty_data:
  "db (d (inbox (ref_faulty two_pairs CursorData (- 2)))) = Some ()"
  "fst (fst (unqlite_kv_cursor_init ref_unqlite () (engine (inbox (ref_faulty two_pairs CursorData (- 2)))))) = UNQLITE_OK"
  "runs_out 2 ref_unqlite (scan_cursor ref_unqlite () (inbox (ref_faulty two_pairs CursorData (- 2))))
     (record_pair True) no_buffers (loop_entry ref_unqlite () (inbox (ref_faulty two_pairs CursorData (- 2))))"
  by code_simp+

subsection \<open>Scans on the reference engine return\<close>

text \<open>The reading entry points of the reference engine leave its state alone, and its
  cursor moves forward through a finite list: unless \<open>unqlite_kv_cursor_next_entry\<close>
  is made to fail, which the loop of the full scan would not notice, every scan
  returns.\<close>

lemma cursor_read_engine [simp]: "engine (snd (cursor_read c f w)) = snd (f (engine w))"
  by (simp add: cursor_read_def emit_def split_beta)

lemma call_result_engine [simp]: "engine (snd (call_result rh kp ks vp vs w)) = engine w"
  by (simp add: call_result_def emit_def split_beta)

lemma ref_read_engine [simp]: "snd (ref_read c item has_buffer n e) = e"
  by (simp add: ref_read_def split: option.split)

lemma ref_cursor_reads [simp]:
  "snd (unqlite_kv_cursor_key ref_unqlite q has_buffer n e) = e"
  "snd (unqlite_kv_cursor_data ref_unqlite q has_buffer n e) = e"
  by (simp_all add: ref_unqlite_def)

lemma fetch_ref_engine: "engine (snd (fetchCursorData ref_unqlite c b rh w)) = engine w"
  by (simp add: fetchCursorData_def Let_def split_beta)

lemma ref_runs_out:
  assumes "fault (engine w) CursorNextEntry = UNQLITE_OK"
    and "position (engine w) = Some i" and "length (working (engine w)) - i \<le> n"
  shows "runs_out n ref_unqlite c rh b w"
  using assms
proof (induction n arbitrary: w b i)
  case 0
  then show ?case
    by (simp add: ref_unqlite_def current_def)
next
  case (Suc n)
  show ?case
  proof (cases "current (engine w) = None")
    case True
    then show ?thesis by (simp add: ref_unqlite_def)
  next
    case False
    let ?w1 = "snd (engine_rc CursorValidEntry (unqlite_kv_cursor_valid_entry ref_unqlite c) w)"
    let ?f = "fetchCursorData ref_unqlite c b rh ?w1"
    let ?w3 = "snd (engine_rc CursorNextEntry (unqlite_kv_cursor_next_entry ref_unqlite c) (snd ?f))"
    have e1: "engine ?w1 = engine w"
      by (simp add: ref_unqlite_def)
    have e3: "engine ?w3 = (engine w)\<lparr>position := Some (Suc i)\<rparr>"
      using Suc.prems e1 by (simp add: fetch_ref_engine) (simp add: ref_unqlite_def ref_guard_def)
    from False Suc.prems have "i < length (working (engine w))"
      by (simp add: current_def split: if_splits)
    with Suc.prems e3 have "runs_out n ref_unqlite c rh (fst ?f) ?w3"
      by (intro Suc.IH [where i = "Suc i"]) (simp_all add: working_def)
    then show ?thesis
      by (simp add: Let_def split_beta)
  qed
qed

lemma ref_scan_returns:
  assumes "fault (engine w) CursorNextEntry = UNQLITE_OK"
  shows "scan ref_unqlite keyData rh eh w \<noteq> None"
proof (cases "db (d w)")
  case None
  then show ?thesis by (simp add: scan_def)
next
  case (Some p)
  show ?thesis
  proof (cases "fst (fst (unqlite_kv_cursor_init ref_unqlite p (engine w))) = UNQLITE_OK")
    case False
    with Some show ?thesis by (simp add: scan_def Let_def split_beta)
  next
    case True
    let ?l = "loop_entry ref_unqlite p w"
    have f: "fault (engine ?l) CursorNextEntry = UNQLITE_OK"
      using assms
      by (simp add: loop_entry_def cursor_ready_def ref_unqlite_def ref_guard_def)
    have "\<exists>i. position (engine ?l) = Some i"
      using True
      by (simp add: loop_entry_def cursor_ready_def ref_unqlite_def ref_guard_def split: if_splits)
    then obtain i where i: "position (engine ?l) = Some i" ..
    have "runs_out (length (working (engine ?l))) ref_unqlite (scan_cursor ref_unqlite p w) rh no_buffers ?l"
      by (rule ref_runs_out [OF f i]) simp
    with scan_returns [OF Some True] show ?thesis by blast
  qed
qed

subsection \<open>The full scan and what the handler returns\<close>

text \<open>
  C1, as stated, fails: a full scan does not stop when the result handler returns false.
  On a store with two pairs a handler that always returns false is called twice, for the
  first pair and then for the second.
\<close>

theorem full_scan_early_stop_counterexample:
  "map_option user
     (scan ref_unqlite None (record_pair False) ignore_error (inbox (ref_files two_pairs)))
   = Some [''a'', ''bc'']
   \<and> map_option (new_events (inbox (ref_files two_pairs)))
       (scan ref_unqlite None (record_pair False) ignore_error (inbox (ref_files two_pairs)))
     = Some [Engine CursorInit 0, Engine CursorFirstEntry 0,
             Engine CursorValidEntry 1,
             Engine CursorKey 0, Engine CursorData 0, Engine CursorKey 0, Engine CursorData 0,
             ResultCall (Some ''a'') 1 (Some ''1'') 1,
             Engine CursorNextEntry 0, Engine CursorValidEntry 1,
             Engine CursorKey 0, Engine CursorData 0, Engine CursorKey 0, Engine CursorData 0,
             ResultCall (Some ''bc'') 2 (Some ''234'') 3,
             Engine CursorNextEntry 0, Engine CursorValidEntry 0,
             Free KeyBuffer (Some ''bc''), Free DataBuffer (Some ''234''),
             Engine CursorRelease 0]"
  by (simp add: scan_defs storage_defs engine_defs)

text \<open>
  C1, amended. In full-scan mode (null or empty key) what the result handler returns has
  no influence on the scan: replacing it by any fixed value gives the same scan. On an
  open store whose cursor is initialised, if the cursor reports a valid entry at the start
  of each of the first \<open>n\<close> rounds and none after them, the scan returns after exactly
  those \<open>n\<close> rounds (test of the cursor, fetch, advance), one more test of the cursor,
  and the release of the two buffers and of the cursor. Each fetch either makes its four
  reads of the cursor with success and then calls the handler once, with the two buffers,
  or stops at the first read that fails and does not call the handler.
\<close>

theorem full_scan_ignores_handler_result:
  assumes "keyData = None \<or> keyData = Some []"
  shows "scan ops keyData (returning r rh) eh w = scan ops keyData rh eh w
     \<and> (\<forall>p. db (d w) = Some p \<and> fst (fst (unqlite_kv_cursor_init ops p (engine w))) = UNQLITE_OK
            \<and> rounds n ops (scan_cursor ops p w) rh (no_buffers, loop_entry ops p w) \<longrightarrow>
          scan ops keyData rh eh w =
            Some (release_all ops p (scan_cursor ops p w)
                    (fst ((scan_round ops (scan_cursor ops p w) rh ^^ n)
                            (no_buffers, loop_entry ops p w)))
                    (snd (engine_rc CursorValidEntry
                            (unqlite_kv_cursor_valid_entry ops (scan_cursor ops p w))
                            (snd ((scan_round ops (scan_cursor ops p w) rh ^^ n)
                                    (no_buffers, loop_entry ops p w)))))))
     \<and> ((\<exists>kl vl. new_events w0 (snd (fetchCursorData ops c b rh w0)) =
              [Engine CursorKey UNQLITE_OK, Engine CursorData UNQLITE_OK,
               Engine CursorKey UNQLITE_OK, Engine CursorData UNQLITE_OK,
               ResultCall (keyBuffer (fst (fetchCursorData ops c b rh w0))) kl
                          (dataBuffer (fst (fetchCursorData ops c b rh w0))) vl]
            \<and> user (snd (fetchCursorData ops c b rh w0)) =
                snd (rh (keyBuffer (fst (fetchCursorData ops c b rh w0))) kl
                        (dataBuffer (fst (fetchCursorData ops c b rh w0))) vl (user w0)))
         \<or> (\<exists>rc. rc \<noteq> UNQLITE_OK
              \<and> user (snd (fetchCursorData ops c b rh w0)) = user w0
              \<and> new_events w0 (snd (fetchCursorData ops c b rh w0)) \<in>
                  {[Engine CursorKey rc],
                   [Engine CursorKey UNQLITE_OK, Engine CursorData rc],
                   [Engine CursorKey UNQLITE_OK, Engine CursorData UNQLITE_OK, Engine CursorKey rc],
                   [Engine CursorKey UNQLITE_OK, Engine CursorData UNQLITE_OK,
                    Engine CursorKey UNQLITE_OK, Engine CursorData rc]}))"
proof (intro conjI allI impI)
  show "scan ops keyData (returning r rh) eh w = scan ops keyData rh eh w"
    by (rule scan_returning)
next
  fix p
  assume h: "db (d w) = Some p \<and> fst (fst (unqlite_kv_cursor_init ops p (engine w))) = UNQLITE_OK
            \<and> rounds n ops (scan_cursor ops p w) rh (no_buffers, loop_entry ops p w)"
  then have o: "db (d w) = Some p"
    and i: "fst (fst (unqlite_kv_cursor_init ops p (engine w))) = UNQLITE_OK"
    and n: "rounds n ops (scan_cursor ops p w) rh (no_buffers, loop_entry ops p w)"
    by simp_all
  have "scan_loop ops c' rh b' w' =
       Some (fst ((scan_round ops c' rh ^^ m) (b', w')),
             snd (engine_rc CursorValidEntry (unqlite_kv_cursor_valid_entry ops c')
                    (snd ((scan_round ops c' rh ^^ m) (b', w')))))"
    if "rounds m ops c' rh (b', w')" for m c' b' w'
    using that
  proof (induction m arbitrary: b' w')
    case 0
    then show ?case
      by (subst scan_loop.simps) (simp add: cursor_valid_def Let_def split_beta)
  next
    case (Suc m)
    let ?r = "scan_round ops c' rh (b', w')"
    from Suc.prems have v: "cursor_valid ops c' w'" and r: "rounds m ops c' rh (fst ?r, snd ?r)"
      by simp_all
    have "scan_loop ops c' rh b' w' = scan_loop ops c' rh (fst ?r) (snd ?r)"
      using v by (subst scan_loop.simps) (simp add: cursor_valid_def scan_round_def Let_def split_beta)
    also have "\<dots> = Some (fst ((scan_round ops c' rh ^^ m) ?r),
             snd (engine_rc CursorValidEntry (unqlite_kv_cursor_valid_entry ops c')
                    (snd ((scan_round ops c' rh ^^ m) ?r))))"
      using Suc.IH [OF r] by simp
    finally show ?case
      by (simp add: funpow_swap1)
  qed
  from this [OF n] have l: "scan_loop ops (scan_cursor ops p w) rh no_buffers (loop_entry ops p w) =
       Some (fst ((scan_round ops (scan_cursor ops p w) rh ^^ n) (no_buffers, loop_entry ops p w)),
             snd (engine_rc CursorValidEntry (unqlite_kv_cursor_valid_entry ops (scan_cursor ops p w))
                    (snd ((scan_round ops (scan_cursor ops p w) rh ^^ n)
                            (no_buffers, loop_entry ops p w)))))" .
  have "scan ops keyData rh eh w =
     map_option (\<lambda>(b, w3). release_all ops p (scan_cursor ops p w) b w3)
       (scan_loop ops (scan_cursor ops p w) rh no_buffers (loop_entry ops p w))"
    using o i assms
    by (auto simp: scan_def release_all_def scan_cursor_def cursor_ready_def
        loop_entry_def no_buffers_def Let_def split_beta option.map_sel split: option.split)
  with l
  show "scan ops keyData rh eh w =
            Some (release_all ops p (scan_cursor ops p w)
                    (fst ((scan_round ops (scan_cursor ops p w) rh ^^ n)
                            (no_buffers, loop_entry ops p w)))
                    (snd (engine_rc CursorValidEntry
                            (unqlite_kv_cursor_valid_entry ops (scan_cursor ops p w))
                            (snd ((scan_round ops (scan_cursor ops p w) rh ^^ n)
                                    (no_buffers, loop_entry ops p w))))))"
    by simp
next
  show "(\<exists>kl vl. new_events w0 (snd (fetchCursorData ops c b rh w0)) =
              [Engine CursorKey UNQLITE_OK, Engine CursorData UNQLITE_OK,
               Engine CursorKey UNQLITE_OK, Engine CursorData UNQLITE_OK,
               ResultCall (keyBuffer (fst (fetchCursorData ops c b rh w0))) kl
                          (dataBuffer (fst (fetchCursorData ops c b rh w0))) vl]
            \<and> user (snd (fetchCursorData ops c b rh w0)) =
                snd (rh (keyBuffer (fst (fetchCursorData ops c b rh w0))) kl
                        (dataBuffer (fst (fetchCursorData ops c b rh w0))) vl (user w0)))
         \<or> (\<exists>rc. rc \<noteq> UNQLITE_OK
              \<and> user (snd (fetchCursorData ops c b rh w0)) = user w0
              \<and> new_events w0 (snd (fetchCursorData ops c b rh w0)) \<in>
                  {[Engine CursorKey rc],
                   [Engine CursorKey UNQLITE_OK, Engine CursorData rc],
                   [Engine CursorKey UNQLITE_OK, Engine CursorData UNQLITE_OK, Engine CursorKey rc],
                   [Engine CursorKey UNQLITE_OK, Engine CursorData UNQLITE_OK,
                    Engine CursorKey UNQLITE_OK, Engine CursorData rc]})"
    by (auto simp: fetchCursorData_def call_result_def emit_def Let_def split_beta new_events_def)
qed

text \<open>The witness: the store with two pairs and the handler that returns false; the scan
  makes two rounds and the handler has been given both keys.\<close>

theorem full_scan_ignores_handler_result_witness:
  "scan ref_unqlite None (returning True (record_pair False)) ignore_error (inbox (ref_files two_pairs))
     = scan ref_unqlite None (record_pair False) ignore_error (inbox (ref_files two_pairs))
   \<and> db (d (inbox (ref_files two_pairs))) = Some ()
   \<and> rounds 2 ref_unqlite (scan_cursor ref_unqlite () (inbox (ref_files two_pairs)))
        (record_pair False) (no_buffers, loop_entry ref_unqlite () (inbox (ref_files two_pairs)))
   \<and> map_option user
        (scan ref_unqlite None (record_pair False) ignore_error (inbox (ref_files two_pairs)))
       = Some (user (snd ((scan_round ref_unqlite
                             (scan_cursor ref_unqlite () (inbox (ref_files two_pairs)))
                             (record_pair False) ^^ 2)
                           (no_buffers, loop_entry ref_unqlite () (inbox (ref_files two_pairs))))))
   \<and> user (snd ((scan_round ref_unqlite (scan_cursor ref_unqlite () (inbox (ref_files two_pairs)))
                     (record_pair False) ^^ 2)
                   (no_buffers, loop_entry ref_unqlite () (inbox (ref_files two_pairs)))))
       = [''a'', ''bc'']
   \<and> map_option user
        (scan ref_unqlite None (record_pair False) ignore_error (inbox (ref_files two_pairs)))
       = Some [''a'', ''bc'']"
proof -
  let ?w = "inbox (ref_files two_pairs)"
  have k: "(None :: ptr) = None \<or> (None :: ptr) = Some []" by simp
  have n: "rounds 2 ref_unqlite (scan_cursor ref_unqlite () ?w) (record_pair False)
             (no_buffers, loop_entry ref_unqlite () ?w)"
    by code_simp
  have u: "user (snd ((scan_round ref_unqlite (scan_cursor ref_unqlite () ?w) (record_pair False) ^^ 2)
                   (no_buffers, loop_entry ref_unqlite () ?w))) = [''a'', ''bc'']"
    by code_simp
  have e: "map_option user (scan ref_unqlite None (record_pair False) ignore_error ?w)
       = Some [''a'', ''bc'']"
    by (simp add: scan_defs storage_defs engine_defs)
  from full_scan_ignores_handler_result [OF k, of ref_unqlite True "record_pair False" ignore_error ?w 2]
    inbox_two_pairs(1,2) n u e
  show ?thesis by simp
qed

subsection \<open>Releasing the buffers and the cursor\<close>

text \<open>
  C9. On an open store, once the cursor is initialised, a scan is its iteration (the loop
  over all entries, or the seek with one fetch or the diagnostic line) followed by
  \<open>free(keyBuffer)\<close>, \<open>free(dataBuffer)\<close> and \<open>unqlite_kv_cursor_release\<close> on the
  store's handle and the scan's cursor: every scan that returns ends with these three, on
  the buffers as the iteration left them and from the engine state it left, and the
  iteration itself frees and releases nothing. This covers normal completion and engine
  errors after the initialisation. An exact-seek scan always returns, and a full scan
  returns whenever the cursor reports no valid entry after finitely many rounds.
\<close>

theorem scan_releases_buffers_and_cursor:
  assumes "db (d w) = Some p" and "fst (fst (unqlite_kv_cursor_init ops p (engine w))) = UNQLITE_OK"
  shows "scan ops keyData rh eh w =
           map_option (\<lambda>(b, w3). release_all ops p (scan_cursor ops p w) b w3)
             (iteration ops p keyData rh w)
       \<and> (\<forall>b w3. iteration ops p keyData rh w = Some (b, w3) \<longrightarrow>
            (\<exists>pre. trace w3 = trace w @ pre \<and> (\<forall>ev\<in>set pre. \<not> is_release_event ev))
            \<and> trace (release_all ops p (scan_cursor ops p w) b w3) = trace w3 @
                [Free KeyBuffer (keyBuffer b), Free DataBuffer (dataBuffer b),
                 Engine CursorRelease
                   (fst (unqlite_kv_cursor_release ops p (scan_cursor ops p w) (engine w3)))]
            \<and> engine (release_all ops p (scan_cursor ops p w) b w3) =
                snd (unqlite_kv_cursor_release ops p (scan_cursor ops p w) (engine w3))
            \<and> user (release_all ops p (scan_cursor ops p w) b w3) = user w3
            \<and> d (release_all ops p (scan_cursor ops p w) b w3) = d w)
       \<and> (((keyData = None \<or> keyData = Some []) \<longrightarrow>
              runs_out n ops (scan_cursor ops p w) rh no_buffers (loop_entry ops p w))
            \<longrightarrow> scan ops keyData rh eh w \<noteq> None)"
proof (intro conjI allI impI)
  show "scan ops keyData rh eh w =
           map_option (\<lambda>(b, w3). release_all ops p (scan_cursor ops p w) b w3)
             (iteration ops p keyData rh w)"
  proof (cases "keyData = None \<or> keyData = Some []")
    case True
    with assms show ?thesis
      by (auto simp: scan_def iteration_def release_all_def scan_cursor_def cursor_ready_def
          loop_entry_def no_buffers_def Let_def split_beta option.map_sel split: option.split)
  next
    case False
    then obtain key where "keyData = Some key" "key \<noteq> []"
      by auto
    with assms show ?thesis
      by (simp add: scan_def iteration_def release_all_def seek_result_def scan_cursor_def
          cursor_ready_def no_buffers_def Let_def split_beta)
  qed
next
  fix b w3
  assume it: "iteration ops p keyData rh w = Some (b, w3)"
  from iteration_trace [OF assms(2) it] obtain pre where
    dw: "d w3 = d w" and t: "trace w3 = trace w @ pre" and e: "\<forall>ev\<in>set pre. is_scan_event ev"
    by blast
  from e have "\<forall>ev\<in>set pre. \<not> is_release_event ev"
    by (auto dest: scan_event_not_release)
  with t show "\<exists>pre. trace w3 = trace w @ pre \<and> (\<forall>ev\<in>set pre. \<not> is_release_event ev)"
    by blast
  show "trace (release_all ops p (scan_cursor ops p w) b w3) = trace w3 @
                [Free KeyBuffer (keyBuffer b), Free DataBuffer (dataBuffer b),
                 Engine CursorRelease
                   (fst (unqlite_kv_cursor_release ops p (scan_cursor ops p w) (engine w3)))]"
    by (simp add: release_all_def)
  show "engine (release_all ops p (scan_cursor ops p w) b w3) =
                snd (unqlite_kv_cursor_release ops p (scan_cursor ops p w) (engine w3))"
    by (simp add: release_all_def)
  show "user (release_all ops p (scan_cursor ops p w) b w3) = user w3"
    by (simp add: release_all_def)
  show "d (release_all ops p (scan_cursor ops p w) b w3) = d w"
    using dw by (simp add: release_all_def)
next
  assume "(keyData = None \<or> keyData = Some []) \<longrightarrow>
              runs_out n ops (scan_cursor ops p w) rh no_buffers (loop_entry ops p w)"
  then show "scan ops keyData rh eh w \<noteq> None"
    by (rule scan_returns [OF assms])
qed

text \<open>The witness: a full scan of two pairs on an engine that fails every read of a
  value.\<close>

theorem scan_releases_buffers_and_cursor_witness:
  "db (d (inbox (ref_faulty two_pairs CursorData (- 2)))) = Some ()
   \<and> (\<exists>w' b w3 pre.
         scan ref_unqlite None (record_pair True) ignore_error (inbox (ref_faulty two_pairs CursorData (- 2)))
           = Some w'
         \<and> iteration ref_unqlite () None (record_pair True) (inbox (ref_faulty two_pairs CursorData (- 2)))
           = Some (b, w3)
         \<and> trace w3 = trace (inbox (ref_faulty two_pairs CursorData (- 2))) @ pre
         \<and> trace w' = trace w3 @
             [Free KeyBuffer (keyBuffer b), Free DataBuffer (dataBuffer b),
              Engine CursorRelease
                (fst (unqlite_kv_cursor_release ref_unqlite ()
                        (scan_cursor ref_unqlite () (inbox (ref_faulty two_pairs CursorData (- 2))))
                        (engine w3)))]
         \<and> engine w' =
             snd (unqlite_kv_cursor_release ref_unqlite ()
                    (scan_cursor ref_unqlite () (inbox (ref_faulty two_pairs CursorData (- 2))))
                    (engine w3)))
   \<and> map_option (new_events (inbox (ref_faulty two_pairs CursorData (- 2))))
       (scan ref_unqlite None (record_pair True) ignore_error
          (inbox (ref_faulty two_pairs CursorData (- 2))))
     = Some [Engine CursorInit 0, Engine CursorFirstEntry 0,
             Engine CursorValidEntry 1, Engine CursorKey 0, Engine CursorData (- 2),
             Engine CursorNextEntry 0,
             Engine CursorValidEntry 1, Engine CursorKey 0, Engine CursorData (- 2),
             Engine CursorNextEntry 0, Engine CursorValidEntry 0,
             Free KeyBuffer None, Free DataBuffer None, Engine CursorRelease 0]"
proof -
  let ?w = "inbox (ref_faulty two_pairs CursorData (- 2))"
  note t = scan_releases_buffers_and_cursor [OF inbox_faulty_data(1,2),
      of None "record_pair True" ignore_error 2]
  note t1 = t [THEN conjunct1]
  note t2 = t [THEN conjunct2, THEN conjunct1]
  note t3 = t [THEN conjunct2, THEN conjunct2]
  from t3 inbox_faulty_data(3)
  have "scan ref_unqlite None (record_pair True) ignore_error ?w \<noteq> None"
    by simp
  with t1 obtain b w3 where
    it: "iteration ref_unqlite () None (record_pair True) ?w = Some (b, w3)"
    by (cases "iteration ref_unqlite () None (record_pair True) ?w") auto
  with t1 have r: "scan ref_unqlite None (record_pair True) ignore_error ?w
      = Some (release_all ref_unqlite () (scan_cursor ref_unqlite () ?w) b w3)"
    by simp
  from t2 it obtain pre where p: "trace w3 = trace ?w @ pre"
    by blast
  have "\<exists>w' b w3 pre.
         scan ref_unqlite None (record_pair True) ignore_error ?w = Some w'
         \<and> iteration ref_unqlite () None (record_pair True) ?w = Some (b, w3)
         \<and> trace w3 = trace ?w @ pre
         \<and> trace w' = trace w3 @
             [Free KeyBuffer (keyBuffer b), Free DataBuffer (dataBuffer b),
              Engine CursorRelease
                (fst (unqlite_kv_cursor_release ref_unqlite () (scan_cursor ref_unqlite () ?w) (engine w3)))]
         \<and> engine w' =
             snd (unqlite_kv_cursor_release ref_unqlite () (scan_cursor ref_unqlite () ?w) (engine w3))"
    using r it p t2
    by (intro exI [of _ "release_all ref_unqlite () (scan_cursor ref_unqlite () ?w) b w3"]
          exI [of _ b] exI [of _ w3] exI [of _ pre]) simp
  moreover have "map_option (new_events ?w) (scan ref_unqlite None (record_pair True) ignore_error ?w)
     = Some [Engine CursorInit 0, Engine CursorFirstEntry 0,
             Engine CursorValidEntry 1, Engine CursorKey 0, Engine CursorData (- 2),
             Engine CursorNextEntry 0,
             Engine CursorValidEntry 1, Engine CursorKey 0, Engine CursorData (- 2),
             Engine CursorNextEntry 0, Engine CursorValidEntry 0,
             Free KeyBuffer None, Free DataBuffer None, Engine CursorRelease 0]"
    by (simp add: scan_defs storage_defs engine_defs)
  ultimately show ?thesis using inbox_faulty_data(1) by blast
qed

subsection \<open>Seeking a key that is not there\<close>

text \<open>
  C7, as stated, fails: on an open store that does not hold the key, an exact-seek scan
  whose cursor the engine fails to initialise calls the error handler once and writes no
  diagnostic line.
\<close>

theorem exact_seek_not_found_counterexample:
  "exists_db (inbox (ref_faulty two_pairs CursorInit (- 1)))
   \<and> index_of ''zz'' (working (engine (inbox (ref_faulty two_pairs CursorInit (- 1))))) = None
   \<and> map_option (new_events (inbox (ref_faulty two_pairs CursorInit (- 1))))
       (scan ref_unqlite (Some ''zz'') (record_pair True) ignore_error
          (inbox (ref_faulty two_pairs CursorInit (- 1))))
     = Some [Engine CursorInit (- 1), Engine ConfigErrLog 0,
             ErrorCall \<lparr>store = ''inbox'', code = - 1, message = ''unqlite_kv_cursor_init''\<rparr>]"
  by (simp add: exists_db_def scan_defs storage_defs engine_defs)

text \<open>
  C7, amended. On an open store, an exact-seek scan (non-empty key) whose cursor is
  initialised and whose seek does not find the key calls neither the result handler nor
  the error handler: it returns, the state of the handlers is untouched, and between the
  two engine calls (initialisation and seek) and the release of the buffers and the
  cursor it only writes the diagnostic line.
\<close>

theorem exact_seek_not_found:
  assumes "db (d w) = Some p" and "fst (fst (unqlite_kv_cursor_init ops p (engine w))) = UNQLITE_OK"
    and "key \<noteq> []"
    and "fst (unqlite_kv_cursor_seek ops (scan_cursor ops p w) key (engine (cursor_ready ops p w)))
           \<noteq> UNQLITE_OK"
  shows "\<exists>w'. scan ops (Some key) rh eh w = Some w'
     \<and> user w' = user w \<and> d w' = d w
     \<and> new_events w w' =
         [Engine CursorInit UNQLITE_OK,
          Engine CursorSeek
            (fst (unqlite_kv_cursor_seek ops (scan_cursor ops p w) key (engine (cursor_ready ops p w)))),
          Cout (''couldn't find value '' @ key @ endl),
          Free KeyBuffer None, Free DataBuffer None,
          Engine CursorRelease
            (fst (unqlite_kv_cursor_release ops p (scan_cursor ops p w)
                    (snd (unqlite_kv_cursor_seek ops (scan_cursor ops p w) key
                            (engine (cursor_ready ops p w))))))]
     \<and> engine w' =
         snd (unqlite_kv_cursor_release ops p (scan_cursor ops p w)
                (snd (unqlite_kv_cursor_seek ops (scan_cursor ops p w) key
                        (engine (cursor_ready ops p w)))))
     \<and> filter is_result_call (new_events w w') = []
     \<and> filter is_error_call (new_events w w') = []"
proof -
  let ?c = "scan_cursor ops p w"
  let ?s = "seek_result ops p key w"
  let ?w' = "release_all ops p ?c no_buffers
               (emit (Cout (''couldn't find value '' @ key @ endl)) (snd ?s))"
  have s: "scan ops (Some key) rh eh w = Some ?w'"
    using assms
    by (simp add: scan_def release_all_def seek_result_def scan_cursor_def cursor_ready_def
        no_buffers_def Let_def split_beta)
  have "trace ?w' = trace w @ [Engine CursorInit UNQLITE_OK,
          Engine CursorSeek (fst (unqlite_kv_cursor_seek ops ?c key (engine (cursor_ready ops p w)))),
          Cout (''couldn't find value '' @ key @ endl),
          Free KeyBuffer None, Free DataBuffer None,
          Engine CursorRelease (fst (unqlite_kv_cursor_release ops p ?c
             (snd (unqlite_kv_cursor_seek ops ?c key (engine (cursor_ready ops p w))))))]"
    using assms(2) by (simp add: no_buffers_def)
  then have n: "new_events w ?w' = [Engine CursorInit UNQLITE_OK,
          Engine CursorSeek (fst (unqlite_kv_cursor_seek ops ?c key (engine (cursor_ready ops p w)))),
          Cout (''couldn't find value '' @ key @ endl),
          Free KeyBuffer None, Free DataBuffer None,
          Engine CursorRelease (fst (unqlite_kv_cursor_release ops p ?c
             (snd (unqlite_kv_cursor_seek ops ?c key (engine (cursor_ready ops p w))))))]"
    by (rule new_events_append)
  have u: "user ?w' = user w" "d ?w' = d w"
    "engine ?w' = snd (unqlite_kv_cursor_release ops p ?c
                (snd (unqlite_kv_cursor_seek ops ?c key (engine (cursor_ready ops p w)))))"
    by simp_all
  from s n u show ?thesis by simp
qed

text \<open>The witness: on the reference engine the seek for an absent key reports
  \<open>UNQLITE_NOTFOUND\<close>.\<close>

theorem exact_seek_not_found_witness:
  "index_of ''zz'' (working (engine (inbox (ref_files two_pairs)))) = None
   \<and> (\<exists>w'. scan ref_unqlite (Some ''zz'') (record_pair True) ignore_error (inbox (ref_files two_pairs))
         = Some w'
       \<and> user w' = []
       \<and> new_events (inbox (ref_files two_pairs)) w' =
         [Engine CursorInit UNQLITE_OK, Engine CursorSeek UNQLITE_NOTFOUND,
          Cout (''couldn't find value zz'' @ endl),
          Free KeyBuffer None, Free DataBuffer None, Engine CursorRelease UNQLITE_OK])"
proof -
  let ?w = "inbox (ref_files two_pairs)"
  have a: "index_of ''zz'' (working (engine ?w)) = None"
    by (simp add: scan_defs storage_defs engine_defs)
  have k: "''zz'' \<noteq> []" by simp
  have s: "fst (unqlite_kv_cursor_seek ref_unqlite (scan_cursor ref_unqlite () ?w) ''zz''
              (engine (cursor_ready ref_unqlite () ?w))) = UNQLITE_NOTFOUND"
    by (simp add: scan_cursor_def cursor_ready_def scan_defs storage_defs engine_defs)
  then have s': "fst (unqlite_kv_cursor_seek ref_unqlite (scan_cursor ref_unqlite () ?w) ''zz''
              (engine (cursor_ready ref_unqlite () ?w))) \<noteq> UNQLITE_OK"
    by (simp add: UNQLITE_NOTFOUND_def UNQLITE_OK_def)
  have r: "fst (unqlite_kv_cursor_release ref_unqlite () c e) = UNQLITE_OK" for c e
    by (simp add: ref_unqlite_def)
  have u: "user ?w = []"
    by (simp add: storage_defs engine_defs)
  from exact_seek_not_found [OF inbox_two_pairs(1,2) k s', of "record_pair True" ignore_error]
    s r a u
  show ?thesis by auto
qed

subsection \<open>Writing and reading a string\<close>

text \<open>With an open handle the string-typed \<open>write\<close> stores as many bytes of the value
  as the key has.\<close>

lemma write_string_value_length:
  "db (d w) = Some p \<Longrightarrow> length sKey \<le> length sValue \<Longrightarrow>
     write_string ops sKey sValue w = Some (write_raw ops sKey (take (length sKey) sValue) w)"
  by (simp add: write_string_def string_block_def)

text \<open>
  C3 at the input of the specification's own scenario: after \<open>write("msg1", "hello")\<close>
  on an open read-write store, which returns true, the engine has been given the value
  \<open>hell\<close>, and \<open>read("msg1")\<close> calls the result handler once, with \<open>hell\<close>.
\<close>

theorem write_string_read_string_hello:
  "write_string ref_unqlite ''msg1'' ''hello'' (inbox (ref_files []))
     = Some (write_raw ref_unqlite ''msg1'' ''hell'' (inbox (ref_files [])))
   \<and> fst (write_raw ref_unqlite ''msg1'' ''hell'' (inbox (ref_files [])))
   \<and> working (engine (snd (write_raw ref_unqlite ''msg1'' ''hell'' (inbox (ref_files [])))))
       = [(''msg1'', ''hell'')]
   \<and> map_option user
         (read_string ref_unqlite ''msg1'' (record_value True) ignore_error
            (snd (write_raw ref_unqlite ''msg1'' ''hell'' (inbox (ref_files [])))))
       = Some [''hell'']"
  by (simp add: scan_defs storage_defs engine_defs)

subsection \<open>Destroying a store\<close>

lemma put_lookup: "map_of (put k v kvs) k = Some v"
  by (induction kvs) auto

lemma write_raw_ref:
  "files (engine (snd (write_raw ref_unqlite k v w))) = files (engine w)"
  "fault (engine (snd (write_raw ref_unqlite k v w))) = fault (engine w)"
  "map_option fst (opened (engine (snd (write_raw ref_unqlite k v w)))) = map_option fst (opened (engine w))"
  "d (snd (write_raw ref_unqlite k v w)) = d w"
  by (cases "opened (engine w)";
      auto simp: write_raw_def reportDbError_def err_log_def engine_rc_def Let_def split_beta
        ref_unqlite_def ref_guard_def set_working_def split: option.split)+

lemma writes_ref:
  "files (engine (writes ref_unqlite kvs w)) = files (engine w)
   \<and> fault (engine (writes ref_unqlite kvs w)) = fault (engine w)
   \<and> map_option fst (opened (engine (writes ref_unqlite kvs w))) = map_option fst (opened (engine w))
   \<and> d (writes ref_unqlite kvs w) = d w"
  by (induction kvs arbitrary: w) (auto simp: write_raw_ref)

lemma destroy_trace:
  assumes "db (d w) = Some p" and "inTransaction (d w)"
  shows "trace (Storage_destroy ops w) = trace w @
            [Engine Rollback (fst (unqlite_rollback ops p (engine w))),
             Engine Close (fst (unqlite_close ops (Some p) (snd (unqlite_rollback ops p (engine w)))))]"
    and "engine (Storage_destroy ops w) = snd (unqlite_close ops (Some p) (snd (unqlite_rollback ops p (engine w))))"
  using assms
  by (simp_all add: Storage_destroy_def abortTransaction_def Let_def split_beta env.defs)

lemma reopen_ref:
  assumes x: "engine x = snd (unqlite_close ref_unqlite (Some ()) (snd (unqlite_rollback ref_unqlite () e)))"
    and o: "opened e = Some (s @ s_unqliteDir @ n, cur)"
    and f: "fst (unqlite_rollback ref_unqlite () e) = UNQLITE_OK"
    and r: "exists_db (Storage ref_unqlite s n m dup x)"
  shows "working (engine (Storage ref_unqlite s n m dup x)) = file_of e (s @ s_unqliteDir @ n)"
  using assms
  by (auto simp: Storage_def exists_db_def Let_def split_beta ref_unqlite_def ref_guard_def
      set_working_def persist_def working_def file_of_def put_lookup world.defs env.defs
      emit_def reportDbError_def err_log_def UNQLITE_OK_def split: if_splits)

lemma pending_facts:
  "db (d pending) = Some ()" "inTransaction (d pending)"
  "opened (engine pending) = Some (''/r/unqlite/inbox'', [(''a'', ''0''), (''bc'', ''234''), (''c'', ''9'')])"
  "fst (unqlite_rollback ref_unqlite () (engine pending)) = UNQLITE_OK"
  "storageRoot (d pending) = ''/r''" "name (d pending) = ''inbox''"
  "file_of (engine pending) ''/r/unqlite/inbox'' = [(''a'', ''1''), (''bc'', ''234'')]"
  "exists_db (Storage ref_unqlite ''/r'' ''inbox'' ReadWrite False (Storage_destroy ref_unqlite pending))"
  by (simp_all add: pending_def exists_db_def scan_defs storage_defs engine_defs)

text \<open>
  C6, as stated, fails in its consequence: \<open>abortTransaction\<close> does not look at what the
  engine's rollback reports. On the reference engine, with a rollback that fails, the
  destructor still calls rollback and close only, and the store reopened afterwards shows
  the two writes made since the transaction began.
\<close>

theorem destroy_aborts_active_transaction_counterexample:
  "isInTransaction pending_unrolled
   \<and> file_of (engine pending_unrolled) ''/r/unqlite/inbox'' = [(''a'', ''1''), (''bc'', ''234'')]
   \<and> new_events pending_unrolled (Storage_destroy ref_unqlite pending_unrolled)
       = [Engine Rollback (- 1), Engine Close 0]
   \<and> working (engine (Storage ref_unqlite ''/r'' ''inbox'' ReadWrite False
                        (Storage_destroy ref_unqlite pending_unrolled)))
       = [(''a'', ''0''), (''bc'', ''234''), (''c'', ''9'')]"
  by (simp add: pending_unrolled_def scan_defs storage_defs engine_defs)

text \<open>
  C6, amended. Destroying a store with an open handle and an active transaction calls the
  engine's rollback and then its close, and nothing else: there is no commit. On the
  reference engine, when that rollback succeeds, then whatever was written to the store
  since the transaction began, the store reopened afterwards shows the pairs of its file
  as they were, without those writes.
\<close>

theorem destroy_aborts_active_transaction:
  "(db (d w) = Some p \<and> inTransaction (d w) \<longrightarrow>
      new_events w (Storage_destroy ops w) =
        [Engine Rollback (fst (unqlite_rollback ops p (engine w))),
         Engine Close (fst (unqlite_close ops (Some p) (snd (unqlite_rollback ops p (engine w)))))]
      \<and> engine (Storage_destroy ops w) =
          snd (unqlite_close ops (Some p) (snd (unqlite_rollback ops p (engine w)))))
   \<and> (db (d v) = Some () \<and> inTransaction (d v)
        \<and> opened (engine v) = Some (storageRoot (d v) @ s_unqliteDir @ name (d v), cur)
        \<and> fst (unqlite_rollback ref_unqlite () (engine (writes ref_unqlite kvs v))) = UNQLITE_OK
        \<and> exists_db (Storage ref_unqlite (storageRoot (d v)) (name (d v)) m dup
                        (Storage_destroy ref_unqlite (writes ref_unqlite kvs v))) \<longrightarrow>
      working (engine (Storage ref_unqlite (storageRoot (d v)) (name (d v)) m dup
                         (Storage_destroy ref_unqlite (writes ref_unqlite kvs v))))
        = file_of (engine v) (storageRoot (d v) @ s_unqliteDir @ name (d v)))"
proof (intro conjI impI)
  assume "db (d w) = Some p \<and> inTransaction (d w)"
  then have a: "db (d w) = Some p" "inTransaction (d w)" by simp_all
  from destroy_trace(1) [OF a, of ops]
  show "new_events w (Storage_destroy ops w) =
        [Engine Rollback (fst (unqlite_rollback ops p (engine w))),
         Engine Close (fst (unqlite_close ops (Some p) (snd (unqlite_rollback ops p (engine w)))))]"
    by (rule new_events_append)
  from destroy_trace(2) [OF a, of ops]
  show "engine (Storage_destroy ops w) =
          snd (unqlite_close ops (Some p) (snd (unqlite_rollback ops p (engine w))))" .
next
  let ?path = "storageRoot (d v) @ s_unqliteDir @ name (d v)"
  let ?v = "writes ref_unqlite kvs v"
  assume h: "db (d v) = Some () \<and> inTransaction (d v)
        \<and> opened (engine v) = Some (?path, cur)
        \<and> fst (unqlite_rollback ref_unqlite () (engine ?v)) = UNQLITE_OK
        \<and> exists_db (Storage ref_unqlite (storageRoot (d v)) (name (d v)) m dup
                        (Storage_destroy ref_unqlite ?v))"
  from writes_ref [of kvs v] have k: "files (engine ?v) = files (engine v)"
    "d ?v = d v"
    "map_option fst (opened (engine ?v)) = map_option fst (opened (engine v))"
    by simp_all
  from k(3) h obtain cur' where o: "opened (engine ?v) = Some (?path, cur')"
    by (cases "opened (engine ?v)") auto
  from h k have a: "db (d ?v) = Some ()" "inTransaction (d ?v)" by simp_all
  from h have f: "fst (unqlite_rollback ref_unqlite () (engine ?v)) = UNQLITE_OK"
    and r: "exists_db (Storage ref_unqlite (storageRoot (d v)) (name (d v)) m dup
                        (Storage_destroy ref_unqlite ?v))"
    by simp_all
  from reopen_ref [OF destroy_trace(2) [OF a] o f r]
  have "working (engine (Storage ref_unqlite (storageRoot (d v)) (name (d v)) m dup
                         (Storage_destroy ref_unqlite ?v))) = file_of (engine ?v) ?path" .
  also have "\<dots> = file_of (engine v) ?path"
    using k(1) by (simp add: file_of_def)
  finally show "working (engine (Storage ref_unqlite (storageRoot (d v)) (name (d v)) m dup
                         (Storage_destroy ref_unqlite ?v))) = file_of (engine v) ?path" .
qed

text \<open>The witness: two pairs in the file, a transaction, two writes, destruction,
  reopening.\<close>

theorem destroy_aborts_active_transaction_witness:
  "db (d pending) = Some () \<and> inTransaction (d pending)
   \<and> working (engine pending) = [(''a'', ''0''), (''bc'', ''234''), (''c'', ''9'')]
   \<and> new_events pending (Storage_destroy ref_unqlite pending) = [Engine Rollback 0, Engine Close 0]
   \<and> working (engine (Storage ref_unqlite ''/r'' ''inbox'' ReadWrite False
                        (Storage_destroy ref_unqlite pending)))
       = [(''a'', ''1''), (''bc'', ''234'')]"
proof -
  have r: "fst (unqlite_rollback ref_unqlite () (engine pending)) = 0"
    "fst (unqlite_close ref_unqlite (Some ()) (snd (unqlite_rollback ref_unqlite () (engine pending)))) = 0"
    using pending_facts(4) by (simp_all add: engine_defs)
  have w: "working (engine pending) = [(''a'', ''0''), (''bc'', ''234''), (''c'', ''9'')]"
    using pending_facts(3) by (simp add: working_def)
  from destroy_aborts_active_transaction [of pending "()" ref_unqlite pending
      "[(''a'', ''0''), (''bc'', ''234''), (''c'', ''9'')]" "[]" ReadWrite False]
    pending_facts r w
  show ?thesis by (simp add: s_unqliteDir_def)
qed

subsection \<open>The transaction flag\<close>

lemma begun_append: "begun b (xs @ ys) = begun (begun b xs) ys"
  by (induction b xs rule: begun.induct) simp_all

lemma begun_no_txn: "\<forall>ev\<in>set evs. \<not> is_txn_call ev \<Longrightarrow> begun b evs = b"
  by (induction b evs rule: begun.induct) simp_all

lemma quiet_stepI:
  "d w' = d w \<Longrightarrow> trace w' = trace w @ evs \<Longrightarrow> \<forall>ev\<in>set evs. \<not> is_txn_call ev \<Longrightarrow> quiet_step w w'"
  by (auto simp: quiet_step_def)

lemma quiet_step_refl: "quiet_step w w"
  by (simp add: quiet_step_def)

lemma quiet_step_trans: "quiet_step w w' \<Longrightarrow> quiet_step w' w'' \<Longrightarrow> quiet_step w w''"
  by (fastforce simp: quiet_step_def)

lemma quiet_step_invariant: "quiet_step w w' \<Longrightarrow> txn_invariant w \<Longrightarrow> txn_invariant w'"
  by (auto simp: quiet_step_def txn_invariant_def begun_append begun_no_txn)

lemma quiet_reportDbError: "quiet_step w (reportDbError ops f w)"
  by (cases "db (d w)")
     (auto simp: quiet_step_def reportDbError_def err_log_def Let_def split_beta)

lemma quiet_reportDbError3: "quiet_step w (reportDbError3 ops f rc eh w)"
  by (cases "db (d w)")
     (auto simp: quiet_step_def reportDbError3_def err_log_def Let_def split_beta)

lemma quiet_call_error: "quiet_step w (call_error eh err w)"
  by (simp add: quiet_step_def)

lemma quiet_write_raw: "quiet_step w (snd (write_raw ops k v w))"
proof (cases "db (d w)")
  case None
  then show ?thesis by (simp add: write_raw_def quiet_step_refl)
next
  case (Some p)
  let ?w1 = "snd (engine_rc KvStore (unqlite_kv_store ops p k v) w)"
  have 1: "quiet_step w ?w1"
    by (rule quiet_stepI [where evs = "[Engine KvStore (fst (unqlite_kv_store ops p k v (engine w)))]"]) simp_all
  have 2: "quiet_step w (reportDbError ops ''unqlite_kv_store'' ?w1)"
    by (rule quiet_step_trans [OF 1 quiet_reportDbError])
  from 1 2 Some show ?thesis
    by (simp add: write_raw_def Let_def split_beta)
qed

lemma quiet_write_string: "write_string ops k v w = Some r \<Longrightarrow> quiet_step w (snd r)"
  by (auto simp: write_string_def quiet_write_raw split: if_splits)

lemma quiet_remove: "quiet_step w (remove ops k eh w)"
  by (cases "db (d w)") (auto simp: remove_def quiet_step_def)

lemma quiet_scan:
  assumes r: "scan ops keyData rh eh w = Some w'"
  shows "quiet_step w w'"
proof (cases "db (d w)")
  case None
  with r show ?thesis by (auto simp: scan_def quiet_call_error)
next
  case (Some p)
  show ?thesis
  proof (cases "fst (fst (unqlite_kv_cursor_init ops p (engine w))) = UNQLITE_OK")
    case True
    from r scan_open [OF Some True, of keyData rh eh] obtain b w3 where
      it: "iteration ops p keyData rh w = Some (b, w3)"
      and w': "w' = release_all ops p (scan_cursor ops p w) b w3"
      by auto
    from iteration_trace [OF True it] obtain pre where
      "d w3 = d w" "trace w3 = trace w @ pre" "\<forall>ev\<in>set pre. is_scan_event ev"
      by blast
    with w' show ?thesis
      by (intro quiet_stepI [where evs = "pre @ [Free KeyBuffer (keyBuffer b), Free DataBuffer (dataBuffer b),
            Engine CursorRelease (fst (unqlite_kv_cursor_release ops p (scan_cursor ops p w) (engine w3)))]"])
         (auto dest: scan_event_not_txn)
  next
    case False
    have 1: "quiet_step w (cursor_ready ops p w)"
      by (rule quiet_stepI [where evs = "[Engine CursorInit (fst (fst (unqlite_kv_cursor_init ops p (engine w))))]"])
         (simp_all add: cursor_ready_def)
    have 2: "quiet_step w (reportDbError3 ops ''unqlite_kv_cursor_init''
        (fst (fst (unqlite_kv_cursor_init ops p (engine w)))) eh (cursor_ready ops p w))"
      by (rule quiet_step_trans [OF 1 quiet_reportDbError3])
    from False Some r have "w' = reportDbError3 ops ''unqlite_kv_cursor_init''
        (fst (fst (unqlite_kv_cursor_init ops p (engine w)))) eh (cursor_ready ops p w)"
      by (simp add: scan_def cursor_ready_def Let_def split_beta)
    with 2 show ?thesis by simp
  qed
qed

lemma txn_invariant_start: "txn_invariant w \<Longrightarrow> txn_invariant (snd (startTransaction ops t w))"
proof (cases "db (d w)")
  case None
  assume "txn_invariant w"
  with None show ?thesis by (simp add: startTransaction_def)
next
  case (Some p)
  assume i: "txn_invariant w"
  show ?thesis
  proof (cases "inTransaction (d w)")
    case True
    with Some i show ?thesis by (simp add: startTransaction_def)
  next
    case False
    show ?thesis
    proof (cases "fst (unqlite_begin ops p (engine w)) = UNQLITE_OK")
      case True
      with Some False show ?thesis
        by (simp add: startTransaction_def Let_def split_beta txn_invariant_def begun_append)
    next
      case f: False
      with Some False show ?thesis
        by (simp add: startTransaction_def Let_def split_beta txn_invariant_def)
    qed
  qed
qed

lemma txn_invariant_commit: "txn_invariant w \<Longrightarrow> txn_invariant (snd (commitTransaction ops w))"
  by (cases "db (d w)")
     (auto simp: commitTransaction_def Let_def split_beta txn_invariant_def)

lemma txn_invariant_abort: "txn_invariant w \<Longrightarrow> txn_invariant (abortTransaction ops w)"
  by (cases "db (d w)")
     (auto simp: abortTransaction_def Let_def split_beta txn_invariant_def)

lemma txn_invariant_new: "txn_invariant (Storage ops s n m dup x)"
  by (simp add: Storage_def Let_def split_beta txn_invariant_def world.defs env.defs)

lemma db_start: "db (d (snd (startTransaction ops t w))) = db (d w)"
  by (cases "db (d w)") (simp_all add: startTransaction_def Let_def split_beta)

lemma db_commit: "db (d (snd (commitTransaction ops w))) = db (d w)"
  by (cases "db (d w)") (simp_all add: commitTransaction_def Let_def split_beta)

lemma db_abort: "db (d (abortTransaction ops w)) = db (d w)"
  by (cases "db (d w)") (simp_all add: abortTransaction_def Let_def split_beta)

lemma quiet_perform:
  assumes "perform ops c w = Some w'"
    and "c \<noteq> CommitTransaction" "c \<noteq> AbortTransaction" "\<forall>t. c \<noteq> StartTransaction t"
  shows "quiet_step w w'"
  using assms
  by (cases c)
     (auto simp: quiet_write_raw quiet_remove read_def read_string_def
        dest: quiet_scan quiet_write_string)

text \<open>
  C10. The flag \<open>inTransaction\<close> is set only on a store with a non-null handle whose
  trace holds a successful begin of the engine that no commit or rollback of the engine
  followed: this holds of a new store and every operation that returns preserves it (and
  the handle). On a store with a null handle no operation changes the object, so none
  sets the flag.
\<close>

theorem transaction_flag_invariant:
  "txn_invariant (Storage ops s n m dup x)
   \<and> (txn_invariant w \<and> perform ops c w = Some w' \<longrightarrow> txn_invariant w' \<and> db (d w') = db (d w))
   \<and> (db (d w) = None \<and> perform ops c w = Some w' \<longrightarrow> d w' = d w)"
proof (intro conjI impI)
  show "txn_invariant (Storage ops s n m dup x)" by (rule txn_invariant_new)
next
  assume h: "txn_invariant w \<and> perform ops c w = Some w'"
  show "txn_invariant w'"
  proof (cases "c = CommitTransaction \<or> c = AbortTransaction \<or> (\<exists>t. c = StartTransaction t)")
    case True
    with h show ?thesis
      by (auto simp: txn_invariant_start txn_invariant_commit txn_invariant_abort)
  next
    case False
    with h quiet_perform [of ops c w w'] have "quiet_step w w'" by simp
    with h show ?thesis by (simp add: quiet_step_invariant)
  qed
  show "db (d w') = db (d w)"
  proof (cases "c = CommitTransaction \<or> c = AbortTransaction \<or> (\<exists>t. c = StartTransaction t)")
    case True
    with h show ?thesis
      by (auto simp: db_start db_commit db_abort)
  next
    case False
    with h quiet_perform [of ops c w w'] have "quiet_step w w'" by simp
    then show ?thesis by (simp add: quiet_step_def)
  qed
next
  assume h: "db (d w) = None \<and> perform ops c w = Some w'"
  then show "d w' = d w"
    by (cases c)
       (auto simp: startTransaction_def commitTransaction_def abortTransaction_def write_raw_def
          write_string_def remove_def scan_def read_def read_string_def)
qed

text \<open>The witness: starting a transaction on a fresh store sets the flag, with the
  handle and the begin that the invariant asks for; on a store that failed to open it
  changes nothing.\<close>

theorem transaction_flag_invariant_witness:
  "txn_invariant (inbox (ref_files []))
   \<and> perform ref_unqlite (StartTransaction ReadWrite) (inbox (ref_files []))
       = Some (snd (startTransaction ref_unqlite ReadWrite (inbox (ref_files []))))
   \<and> inTransaction (d (snd (startTransaction ref_unqlite ReadWrite (inbox (ref_files [])))))
   \<and> db (d (snd (startTransaction ref_unqlite ReadWrite (inbox (ref_files []))))) \<noteq> None
   \<and> begun False (trace (snd (startTransaction ref_unqlite ReadWrite (inbox (ref_files [])))))
   \<and> db (d (inbox (ref_faulty [] Open (- 2)))) = None
   \<and> d (snd (startTransaction ref_unqlite ReadWrite (inbox (ref_faulty [] Open (- 2)))))
       = d (inbox (ref_faulty [] Open (- 2)))"
proof -
  let ?w = "inbox (ref_files [])"
  let ?w' = "snd (startTransaction ref_unqlite ReadWrite ?w)"
  let ?n = "inbox (ref_faulty [] Open (- 2))"
  let ?n' = "snd (startTransaction ref_unqlite ReadWrite ?n)"
  have p: "perform ref_unqlite (StartTransaction ReadWrite) ?w = Some ?w'"
    "perform ref_unqlite (StartTransaction ReadWrite) ?n = Some ?n'"
    by simp_all
  have a: "inTransaction (d ?w')"
    by (simp add: storage_defs engine_defs)
  have n: "db (d ?n) = None"
    by (simp add: storage_defs engine_defs)
  from transaction_flag_invariant [of ref_unqlite "''/r''" "''inbox''" ReadWrite False
      "env0 (ref_files []) []" ?w "StartTransaction ReadWrite" ?w']
  have i: "txn_invariant ?w" "txn_invariant ?w'"
    using p unfolding inbox_def by blast+
  from transaction_flag_invariant [of ref_unqlite "''/r''" "''inbox''" ReadWrite False
      "env0 (ref_files []) []" ?n "StartTransaction ReadWrite" ?n']
  have k: "d ?n' = d ?n"
    using p n by blast
  from i a n k p show ?thesis
    by (simp add: txn_invariant_def)
qed

end
